theory Spec2Isabelle
  imports Complex_Main
begin

section \<open>Python values used by the browser automation modules\<close>

text \<open>
  The strings of the workflows (selectors, URLs, data URIs, paths, messages) are
  \<open>char list\<close>: the workflows only compare them with ASCII literals, so one \<open>char\<close>
  stands for one Python character.  Byte strings are \<open>char list\<close> as well.  The text of
  a metric cell, which the parsers hand to \<open>str.strip\<close>, \<open>int()\<close> and \<open>float()\<close>, is
  a list of Unicode code points.  An exception is a value carrying its class and its
  message (\<open>str(e)\<close>); a computation that may raise returns \<open>pyexn + 'a\<close>.
\<close>

type_synonym bytes = "char list"

datatype exn_class = ValueError | AttributeError | TimeoutError | PlaywrightError | OSError

datatype pyexn = PyExn exn_class string

fun exn_message :: "pyexn \<Rightarrow> string" where
  "exn_message (PyExn c m) = m"

fun exn_is_value_error :: "pyexn \<Rightarrow> bool" where
  "exn_is_value_error (PyExn c m) = (c = ValueError)"

subsection \<open>String helpers: \<open>str.startswith\<close>, \<open>in\<close>\<close>

fun startswith :: "string \<Rightarrow> string \<Rightarrow> bool" where
  "startswith s [] = True"
| "startswith [] (p # ps) = False"
| "startswith (c # cs) (p # ps) = (c = p \<and> startswith cs ps)"

fun contains :: "string \<Rightarrow> string \<Rightarrow> bool" where
  \<comment> \<open>\<open>sub in s\<close>\<close>
  "contains [] sub = (sub = [])"
| "contains (c # cs) sub = (startswith (c # cs) sub \<or> contains cs sub)"

subsection \<open>Text: \<open>str.strip\<close>, \<open>str.replace\<close>\<close>

text \<open>
  The text of a metric cell is a list of Unicode code points; \<open>py_str\<close> is the text with
  the characters of an ASCII literal.
\<close>

type_synonym unicode = "nat list"

abbreviation ord :: "char \<Rightarrow> nat" where
  "ord \<equiv> of_char"

definition py_str :: "string \<Rightarrow> unicode" where
  "py_str s = map ord s"

definition is_space :: "nat \<Rightarrow> bool" where
  \<comment> \<open>\<open>str.isspace\<close> on one code point, the whitespace that \<open>str.strip\<close> removes\<close>
  "is_space c =
     (c \<in> set [9, 10, 11, 12, 13, 28, 29, 30, 31, 32, 133, 160, 5760,
                8192, 8193, 8194, 8195, 8196, 8197, 8198, 8199, 8200, 8201, 8202,
                8232, 8233, 8239, 8287, 12288])"

definition py_strip :: "unicode \<Rightarrow> unicode" where
  "py_strip s = rev (dropWhile is_space (rev (dropWhile is_space s)))"

definition remove_char :: "nat \<Rightarrow> unicode \<Rightarrow> unicode" where
  \<comment> \<open>\<open>text.replace(c, "")\<close> for a one-character \<open>c\<close>\<close>
  "remove_char c s = filter (\<lambda>d. d \<noteq> c) s"

subsection \<open>The built-ins \<open>int(str)\<close> and \<open>float(str)\<close>\<close>

text \<open>
  Both built-ins first rewrite the text to ASCII: a text with a code point above 127 has
  its whitespace replaced by a blank and its decimal digits by the ASCII digits of the
  same value, and is cut after the first other code point above 126, which becomes a
  question mark.  The decimal digits of Unicode 14.0 (CPython 3.11) come in 66 runs of
  ten consecutive code points, from the digit zero to the digit nine; \<open>decimal_zeros\<close>
  lists the zeros.  The rewritten text is then parsed after its leading and trailing C
  whitespace is skipped, which does not include the separators 28 to 31.
\<close>

definition decimal_zeros :: "nat list" where
  "decimal_zeros =
     [48, 1632, 1776, 1984, 2406, 2534, 2662, 2790, 2918, 3046, 3174, 3302, 3430, 3558,
      3664, 3792, 3872, 4160, 4240, 6112, 6160, 6470, 6608, 6784, 6800, 6992, 7088, 7232,
      7248, 42528, 43216, 43264, 43472, 43504, 43600, 44016, 65296, 66720, 68912, 69734,
      69872, 69942, 70096, 70384, 70736, 70864, 71248, 71360, 71472, 71904, 72016, 72784,
      73040, 73120, 92768, 92864, 93008, 120782, 120792, 120802, 120812, 120822, 123200,
      123632, 125264, 130032]"

definition decimal_value :: "nat \<Rightarrow> nat option" where
  \<comment> \<open>the value of a decimal digit, \<open>None\<close> for every other code point\<close>
  "decimal_value c =
     (case find (\<lambda>z. z \<le> c \<and> c < z + 10) decimal_zeros of
        Some z \<Rightarrow> Some (c - z)
      | None \<Rightarrow> None)"

fun to_ascii :: "unicode \<Rightarrow> unicode" where
  "to_ascii [] = []"
| "to_ascii (c # cs) =
     (if c < 127 then c # to_ascii cs
      else if is_space c then ord CHR '' '' # to_ascii cs
      else (case decimal_value c of
              Some d \<Rightarrow> (ord CHR ''0'' + d) # to_ascii cs
            | None \<Rightarrow> [ord CHR ''?'']))"

definition transform_decimal_and_space :: "unicode \<Rightarrow> unicode" where
  "transform_decimal_and_space s = (if list_all (\<lambda>c. c < 128) s then s else to_ascii s)"

definition c_isspace :: "nat \<Rightarrow> bool" where
  "c_isspace c = (c \<in> set [9, 10, 11, 12, 13, 32])"

definition c_strip :: "unicode \<Rightarrow> unicode" where
  "c_strip s = rev (dropWhile c_isspace (rev (dropWhile c_isspace s)))"

definition is_digit :: "nat \<Rightarrow> bool" where
  "is_digit c = (ord CHR ''0'' \<le> c \<and> c \<le> ord CHR ''9'')"

definition digit_val :: "nat \<Rightarrow> nat" where
  "digit_val c = c - ord CHR ''0''"

text \<open>
  \<open>span_digits acc n cs\<close> reads the longest prefix of \<open>cs\<close> that continues a
  \<open>digitpart\<close> (digits, with single underscores between digits), given that \<open>n\<close> digits
  with value \<open>acc\<close> were read already.  It returns the value, the number of digits and
  the unread rest.
\<close>

fun span_digits :: "nat \<Rightarrow> nat \<Rightarrow> unicode \<Rightarrow> nat \<times> nat \<times> unicode" where
  "span_digits acc n [] = (acc, n, [])"
| "span_digits acc n (c # cs) =
     (if is_digit c then span_digits (acc * 10 + digit_val c) (Suc n) cs
      else if c = ord CHR ''_'' \<and> 0 < n \<and> cs \<noteq> [] \<and> is_digit (hd cs)
        then span_digits acc n cs
      else (acc, n, c # cs))"

definition max_str_digits :: nat where
  \<comment> \<open>\<open>sys.int_info.default_max_str_digits\<close>: longer literals raise \<open>ValueError\<close>\<close>
  "max_str_digits = 4300"

definition py_int_abs :: "unicode \<Rightarrow> pyexn + nat" where
  "py_int_abs s =
     (case span_digits 0 0 s of
        (v, n, rest) \<Rightarrow>
          if n = 0 \<or> rest \<noteq> [] then Inl (PyExn ValueError ''invalid literal for int() with base 10'')
          else if max_str_digits < n then Inl (PyExn ValueError ''Exceeds the limit for integer string conversion'')
          else Inr v)"

definition py_int :: "unicode \<Rightarrow> pyexn + int" where
  "py_int text =
     (case c_strip (transform_decimal_and_space text) of
        c # cs \<Rightarrow>
          if c = ord CHR ''-'' then map_sum id (\<lambda>v. - int v) (py_int_abs cs)
          else if c = ord CHR ''+'' then map_sum id int (py_int_abs cs)
          else map_sum id int (py_int_abs (c # cs))
      | [] \<Rightarrow> Inl (PyExn ValueError ''invalid literal for int() with base 10''))"

text \<open>
  A Python float is represented by the exact value of the decimal literal it was read
  from: \<open>Finite q\<close> is the double nearest to \<open>q\<close>, which is what both \<open>float(str)\<close> and a
  literal in the program text produce.  Equal representations are equal doubles.
\<close>

datatype pyfloat = Finite rat | Infinite bool | NaN

definition lower_char :: "nat \<Rightarrow> nat" where
  "lower_char c = (if ord CHR ''A'' \<le> c \<and> c \<le> ord CHR ''Z'' then c + 32 else c)"

definition float_exponent :: "unicode \<Rightarrow> pyexn + int" where
  \<comment> \<open>the optional \<open>e[+-]digits\<close> at the end of a float literal\<close>
  "float_exponent s =
     (case s of
        [] \<Rightarrow> Inr 0
      | c # cs \<Rightarrow>
          if c = ord CHR ''e'' \<or> c = ord CHR ''E'' then
            (case (case cs of
                     d # ds \<Rightarrow> if d = ord CHR ''-'' then (True, ds)
                               else if d = ord CHR ''+'' then (False, ds) else (False, cs)
                   | [] \<Rightarrow> (False, cs)) of
               (neg, ds) \<Rightarrow>
                 (case span_digits 0 0 ds of
                    (v, n, rest) \<Rightarrow>
                      if n = 0 \<or> rest \<noteq> [] then Inl (PyExn ValueError ''could not convert string to float'')
                      else Inr (if neg then - int v else int v)))
          else Inl (PyExn ValueError ''could not convert string to float''))"

definition scale10 :: "rat \<Rightarrow> int \<Rightarrow> rat" where
  "scale10 q e = (if 0 \<le> e then q * 10 ^ nat e else q / 10 ^ nat (- e))"

definition py_float_abs :: "unicode \<Rightarrow> pyexn + pyfloat" where
  "py_float_abs s =
     (if map lower_char s = py_str ''inf'' \<or> map lower_char s = py_str ''infinity''
        then Inr (Infinite False)
      else if map lower_char s = py_str ''nan'' then Inr NaN
      else
        (case span_digits 0 0 s of
           (iv, inum, rest) \<Rightarrow>
             (case (case rest of
                      c # cs \<Rightarrow> if c = ord CHR ''.'' then span_digits 0 0 cs else (0, 0, rest)
                    | [] \<Rightarrow> (0, 0, rest)) of
                (fv, fnum, rest') \<Rightarrow>
                  if inum = 0 \<and> fnum = 0 then Inl (PyExn ValueError ''could not convert string to float'')
                  else
                    (case float_exponent rest' of
                       Inl e \<Rightarrow> Inl e
                     | Inr ex \<Rightarrow>
                         Inr (Finite (scale10 (of_nat iv + of_nat fv / 10 ^ fnum) ex))))))"

fun float_neg :: "pyfloat \<Rightarrow> pyfloat" where
  "float_neg (Finite q) = Finite (- q)"
| "float_neg (Infinite b) = Infinite (\<not> b)"
| "float_neg NaN = NaN"

definition py_float :: "unicode \<Rightarrow> pyexn + pyfloat" where
  "py_float text =
     (case c_strip (transform_decimal_and_space text) of
        c # cs \<Rightarrow>
          if c = ord CHR ''-'' then map_sum id float_neg (py_float_abs cs)
          else if c = ord CHR ''+'' then py_float_abs cs
          else py_float_abs (c # cs)
      | [] \<Rightarrow> Inl (PyExn ValueError ''could not convert string to float''))"

section \<open>facebook\_metrics.py: the metric parsers\<close>

definition parse_number :: "unicode \<Rightarrow> pyexn + int" where
  "parse_number text0 =
     (let text = py_strip text0 in
      if text \<in> set [py_str ''--'', py_str '''', py_str ''-''] then Inr 0
      else
        (let text = remove_char (ord CHR '','') text in
         case py_int text of
           Inr v \<Rightarrow> Inr v
         | Inl e \<Rightarrow> if exn_is_value_error e then Inr 0 else Inl e))"

definition parse_distribution :: "unicode \<Rightarrow> pyexn + pyfloat option" where
  "parse_distribution text0 =
     (let text = py_strip text0 in
      if text \<in> set [py_str ''--'', py_str '''', py_str ''-''] then Inr None
      else
        (let text = remove_char (ord CHR ''x'') text in
         case py_float text of
           Inr v \<Rightarrow> Inr (Some v)
         | Inl e \<Rightarrow> if exn_is_value_error e then Inr None else Inl e))"


section \<open>The world outside the modules\<close>

text \<open>
  A page is the handle of a browser tab; handles are handed out in order.  An element
  handle records how it was obtained: page, selector, and position among the matches.
  The browser, the file system and \<open>base64.b64decode\<close> are parameters of the model: an
  environment is a record of operations over an external state \<open>'w\<close>.  Every operation
  is told the current time, may raise, and may change the external state; \<open>elapsed\<close>
  is the time the last operation took.  \<open>new_page\<close> stands for
  \<open>get_context()\<close> followed by \<open>ctx.new_page()\<close>; \<open>query_selector\<close> answers whether an
  element matched and \<open>query_selector_all\<close> how many did.
\<close>

type_synonym page = nat

datatype elem = Elem page string nat

type_synonym ('w, 'a) extcall = "nat \<Rightarrow> 'w \<Rightarrow> (pyexn + 'a) \<times> 'w"

record 'w env =
  new_page :: "('w, unit) extcall"
  goto :: "page \<Rightarrow> string \<Rightarrow> ('w, unit) extcall"
  page_url :: "page \<Rightarrow> ('w, string) extcall"
  wait_for_selector :: "page \<Rightarrow> string \<Rightarrow> nat \<Rightarrow> ('w, unit) extcall"
  query_selector :: "page \<Rightarrow> string \<Rightarrow> ('w, bool) extcall"
  query_selector_all :: "page \<Rightarrow> string \<Rightarrow> ('w, nat) extcall"
  click :: "elem \<Rightarrow> ('w, unit) extcall"
  fill :: "elem \<Rightarrow> string \<Rightarrow> ('w, unit) extcall"
  get_attribute :: "elem \<Rightarrow> string \<Rightarrow> ('w, string option) extcall"
  keyboard_press :: "page \<Rightarrow> string \<Rightarrow> ('w, unit) extcall"
  keyboard_type :: "page \<Rightarrow> string \<Rightarrow> nat \<Rightarrow> ('w, unit) extcall"
  text_count :: "page \<Rightarrow> string \<Rightarrow> bool \<Rightarrow> ('w, nat) extcall"
  text_first_click :: "page \<Rightarrow> string \<Rightarrow> bool \<Rightarrow> ('w, unit) extcall"
  reload :: "page \<Rightarrow> ('w, unit) extcall"
  request_get :: "page \<Rightarrow> string \<Rightarrow> ('w, unit) extcall"
  response_body :: "page \<Rightarrow> string \<Rightarrow> ('w, bytes) extcall"
  mkdir_parents :: "string \<Rightarrow> ('w, unit) extcall"
  write_bytes :: "string \<Rightarrow> bytes \<Rightarrow> ('w, unit) extcall"
  page_close :: "page \<Rightarrow> ('w, unit) extcall"
  b64decode :: "string \<Rightarrow> pyexn + bytes"
  elapsed :: "'w \<Rightarrow> nat"

text \<open>
  The state threaded through the workflows: the wall clock in milliseconds, the
  observable events so far (oldest first), the next free page handle, and the external
  state.
\<close>

datatype event =
    PageOpened page
  | PageClosed page
  | Clicked elem
  | AttrRead elem string "string option"
  | FileWritten string bytes

record 'w st =
  clock :: nat
  events :: "event list"
  next_page :: nat
  ext :: 'w

type_synonym ('w, 'a) io = "'w st \<Rightarrow> (pyexn + 'a) \<times> 'w st"

definition ret :: "'a \<Rightarrow> ('w, 'a) io" where
  "ret x = (\<lambda>s. (Inr x, s))"

definition raise :: "pyexn \<Rightarrow> ('w, 'a) io" where
  "raise e = (\<lambda>s. (Inl e, s))"

definition bnd :: "('w, 'a) io \<Rightarrow> ('a \<Rightarrow> ('w, 'b) io) \<Rightarrow> ('w, 'b) io" where
  "bnd m f = (\<lambda>s. case m s of (Inl e, s') \<Rightarrow> (Inl e, s') | (Inr x, s') \<Rightarrow> f x s')"

definition try_except :: "('w, 'a) io \<Rightarrow> (pyexn \<Rightarrow> ('w, 'a) io) \<Rightarrow> ('w, 'a) io" where
  \<comment> \<open>\<open>try: m  except Exception as e: h e\<close>\<close>
  "try_except m h = (\<lambda>s. case m s of (Inl e, s') \<Rightarrow> h e s' | (Inr x, s') \<Rightarrow> (Inr x, s'))"

definition call :: "'w env \<Rightarrow> ('w, 'a) extcall \<Rightarrow> ('w, 'a) io" where
  "call env f = (\<lambda>s. case f (clock s) (ext s) of
                       (r, w) \<Rightarrow> (r, s\<lparr>ext := w, clock := clock s + elapsed env w\<rparr>))"

definition pure_call :: "pyexn + 'a \<Rightarrow> ('w, 'a) io" where
  "pure_call r = (\<lambda>s. (r, s))"

definition emit :: "event \<Rightarrow> ('w, unit) io" where
  "emit ev = (\<lambda>s. (Inr (), s\<lparr>events := events s @ [ev]\<rparr>))"

definition time_now :: "('w, nat) io" where
  \<comment> \<open>\<open>time.time()\<close>, in milliseconds\<close>
  "time_now = (\<lambda>s. (Inr (clock s), s))"

definition sleep :: "nat \<Rightarrow> ('w, unit) io" where
  \<comment> \<open>\<open>asyncio.sleep\<close>, in milliseconds\<close>
  "sleep ms = (\<lambda>s. (Inr (), s\<lparr>clock := clock s + ms\<rparr>))"

definition alloc_page :: "('w, page) io" where
  "alloc_page = (\<lambda>s. (Inr (next_page s),
                       s\<lparr>next_page := Suc (next_page s),
                         events := events s @ [PageOpened (next_page s)]\<rparr>))"

text \<open>Operations on an element handle that may be \<open>None\<close> raise \<open>AttributeError\<close>.\<close>

definition deref :: "elem option \<Rightarrow> ('w, elem) io" where
  "deref h = (case h of None \<Rightarrow> raise (PyExn AttributeError ''NoneType object has no attribute'')
                      | Some e \<Rightarrow> ret e)"

definition page_query_selector :: "'w env \<Rightarrow> page \<Rightarrow> string \<Rightarrow> ('w, elem option) io" where
  "page_query_selector env page sel =
     bnd (call env (query_selector env page sel))
       (\<lambda>found. ret (if found then Some (Elem page sel 0) else None))"

definition page_query_selector_all :: "'w env \<Rightarrow> page \<Rightarrow> string \<Rightarrow> ('w, elem list) io" where
  "page_query_selector_all env page sel =
     bnd (call env (query_selector_all env page sel))
       (\<lambda>n. ret (map (Elem page sel) [0..<n]))"

definition elem_click :: "'w env \<Rightarrow> elem \<Rightarrow> ('w, unit) io" where
  "elem_click env e = bnd (call env (click env e)) (\<lambda>_. emit (Clicked e))"

definition elem_get_attribute :: "'w env \<Rightarrow> elem \<Rightarrow> string \<Rightarrow> ('w, string option) io" where
  "elem_get_attribute env e name =
     bnd (call env (get_attribute env e name)) (\<lambda>v. bnd (emit (AttrRead e name v)) (\<lambda>_. ret v))"

definition path_write_bytes :: "'w env \<Rightarrow> string \<Rightarrow> bytes \<Rightarrow> ('w, unit) io" where
  "path_write_bytes env path content =
     bnd (call env (write_bytes env path content)) (\<lambda>_. emit (FileWritten path content))"

section \<open>config.py\<close>

definition GROK_URL :: string where "GROK_URL = ''https://grok.com/imagine''"
definition SORA_STORYBOARD_URL :: string where "SORA_STORYBOARD_URL = ''https://sora.chatgpt.com/storyboard''"
definition SORA_DRAFTS_URL :: string where "SORA_DRAFTS_URL = ''https://sora.chatgpt.com/drafts''"
definition DEFAULT_TIMEOUT_MS :: nat where "DEFAULT_TIMEOUT_MS = 120000"
definition SORA_TIMEOUT_MS :: nat where "SORA_TIMEOUT_MS = 1800000"
definition RETRY_ATTEMPTS :: nat where "RETRY_ATTEMPTS = 3"
definition RETRY_DELAY_S :: nat where "RETRY_DELAY_S = 10"
definition SORA_RETRY_DELAY_S :: nat where "SORA_RETRY_DELAY_S = 30"
definition SCREENSHOT_POLL_INTERVAL_S :: nat where "SCREENSHOT_POLL_INTERVAL_S = 3"
definition SORA_DRAFT_POLL_INTERVAL_S :: nat where "SORA_DRAFT_POLL_INTERVAL_S = 30"

section \<open>browser.py\<close>

definition get_page :: "'w env \<Rightarrow> string \<Rightarrow> ('w, page) io" where
  "get_page env url =
     bnd (call env (new_page env)) (\<lambda>_.
     bnd alloc_page (\<lambda>page.
     bnd (call env (goto env page url)) (\<lambda>_.
     ret page)))"

definition wait_for_element :: "'w env \<Rightarrow> page \<Rightarrow> string \<Rightarrow> nat \<Rightarrow> ('w, bool) io" where
  "wait_for_element env page selector timeout_ms =
     try_except
       (bnd (call env (wait_for_selector env page selector timeout_ms)) (\<lambda>_. ret True))
       (\<lambda>e. ret False)"

definition close_page :: "'w env \<Rightarrow> page \<Rightarrow> ('w, unit) io" where
  "close_page env page =
     try_except
       (bnd (call env (page_close env page)) (\<lambda>_. emit (PageClosed page)))
       (\<lambda>e. ret ())"


subsection \<open>Time never runs backwards\<close>

definition clock_mono :: "('w, 'a) io \<Rightarrow> bool" where
  "clock_mono m = (\<forall>s. clock s \<le> clock (snd (m s)))"

lemma clock_mono_ret: "clock_mono (ret x)"
  by (simp add: clock_mono_def ret_def)

lemma clock_mono_raise: "clock_mono (raise e)"
  by (simp add: clock_mono_def raise_def)

lemma clock_mono_pure_call: "clock_mono (pure_call r)"
  by (simp add: clock_mono_def pure_call_def)

lemma clock_mono_call: "clock_mono (call env f)"
  by (simp add: clock_mono_def call_def split: prod.splits)

lemma clock_mono_emit: "clock_mono (emit ev)"
  by (simp add: clock_mono_def emit_def)

lemma clock_mono_sleep: "clock_mono (sleep ms)"
  by (simp add: clock_mono_def sleep_def)

lemma clock_mono_time_now: "clock_mono time_now"
  by (simp add: clock_mono_def time_now_def)

lemma clock_mono_alloc_page: "clock_mono alloc_page"
  by (simp add: clock_mono_def alloc_page_def)

lemma clock_mono_bnd:
  assumes "clock_mono m" and "\<And>x. clock_mono (f x)"
  shows "clock_mono (bnd m f)"
  unfolding clock_mono_def
proof
  fix s
  obtain r s1 where ms: "m s = (r, s1)" by (cases "m s")
  from assms(1) ms have le1: "clock s \<le> clock s1"
    by (auto simp: clock_mono_def dest: spec [of _ s])
  show "clock s \<le> clock (snd (bnd m f s))"
  proof (cases r)
    case (Inl e)
    with ms le1 show ?thesis by (simp add: bnd_def)
  next
    case (Inr x)
    from assms(2) [of x] have "clock s1 \<le> clock (snd (f x s1))"
      by (simp add: clock_mono_def)
    with Inr ms le1 show ?thesis by (simp add: bnd_def)
  qed
qed

lemma clock_mono_try_except:
  assumes "clock_mono m" and "\<And>e. clock_mono (h e)"
  shows "clock_mono (try_except m h)"
  unfolding clock_mono_def
proof
  fix s
  obtain r s1 where ms: "m s = (r, s1)" by (cases "m s")
  from assms(1) ms have le1: "clock s \<le> clock s1"
    by (auto simp: clock_mono_def dest: spec [of _ s])
  show "clock s \<le> clock (snd (try_except m h s))"
  proof (cases r)
    case (Inr x)
    with ms le1 show ?thesis by (simp add: try_except_def)
  next
    case (Inl e)
    from assms(2) [of e] have "clock s1 \<le> clock (snd (h e s1))"
      by (simp add: clock_mono_def)
    with Inl ms le1 show ?thesis by (simp add: try_except_def)
  qed
qed

lemmas clock_mono_intros =
  clock_mono_bnd clock_mono_try_except clock_mono_ret clock_mono_raise clock_mono_pure_call
  clock_mono_call clock_mono_emit clock_mono_sleep clock_mono_time_now clock_mono_alloc_page

lemma clock_monoD: "clock_mono m \<Longrightarrow> m s = (r, s') \<Longrightarrow> clock s \<le> clock s'"
  by (auto simp: clock_mono_def dest: spec [of _ s])

lemma clock_mono_elem_get_attribute: "clock_mono (elem_get_attribute env e name)"
  unfolding elem_get_attribute_def by (intro clock_mono_intros)

lemma clock_mono_page_query_selector_all: "clock_mono (page_query_selector_all env page sel)"
  unfolding page_query_selector_all_def by (intro clock_mono_intros)

section \<open>grok.py\<close>

datatype pyval = PyBool bool | PyStr string | PyInt int

type_synonym pydict = "(string \<times> pyval) list"

text \<open>How one iteration of a retry loop ends: \<open>return\<close>, \<open>break\<close>, or on to the next
  iteration (\<open>continue\<close>, or the end of the \<open>except\<close> block); the string is
  \<open>last_error\<close>.\<close>

datatype loop_exit = Return pydict | Break string | Next string

definition split_comma :: "string \<Rightarrow> (string \<times> string) option" where
  \<comment> \<open>\<open>src.split(",", 1)\<close> when it has two parts\<close>
  "split_comma src =
     (if CHR '','' \<in> set src
      then Some (takeWhile (\<lambda>c. c \<noteq> CHR '','') src, tl (dropWhile (\<lambda>c. c \<noteq> CHR '','') src))
      else None)"

definition or_empty :: "string option \<Rightarrow> string" where
  \<comment> \<open>\<open>v or ""\<close>\<close>
  "or_empty v = (case v of None \<Rightarrow> [] | Some x \<Rightarrow> x)"

definition generated_image_sel :: string where
  "generated_image_sel = ''img[alt=\"Generated image\"]''"

fun scan_images :: "'w env \<Rightarrow> elem list \<Rightarrow> ('w, bytes option) io" where
  "scan_images env [] = ret None"
| "scan_images env (img # imgs) =
     bnd (elem_get_attribute env img ''src'') (\<lambda>v.
       if startswith (or_empty v) ''data:image/'' \<and> 150000 < length (or_empty v) then
         (case split_comma (or_empty v) of
            None \<Rightarrow> raise (PyExn ValueError ''not enough values to unpack (expected 2, got 1)'')
          | Some (u, encoded) \<Rightarrow> bnd (pure_call (b64decode env encoded)) (\<lambda>b. ret (Some b)))
       else scan_images env imgs)"

definition poll_loaded_step :: "'w env \<Rightarrow> page \<Rightarrow> ('w, bytes option) io" where
  \<comment> \<open>the body of the \<open>while\<close> loop up to the sleep\<close>
  "poll_loaded_step env page =
     bnd (page_query_selector_all env page generated_image_sel) (scan_images env)"

lemma clock_mono_scan_images: "clock_mono (scan_images env imgs)"
  by (induction imgs)
     (auto intro!: clock_mono_intros clock_mono_elem_get_attribute split: option.splits)

lemma clock_mono_poll_loaded_step: "clock_mono (poll_loaded_step env page)"
  unfolding poll_loaded_step_def
  by (intro clock_mono_bnd clock_mono_page_query_selector_all clock_mono_scan_images)

function poll_loaded_loop :: "'w env \<Rightarrow> page \<Rightarrow> nat \<Rightarrow> ('w, bytes option) io" where
  "poll_loaded_loop env page deadline s =
     (if clock s < deadline then
        (case poll_loaded_step env page s of
           (Inl e, s1) \<Rightarrow> (Inl e, s1)
         | (Inr (Some b), s1) \<Rightarrow> (Inr (Some b), s1)
         | (Inr None, s1) \<Rightarrow>
             poll_loaded_loop env page deadline
               (snd (sleep (SCREENSHOT_POLL_INTERVAL_S * 1000) s1)))
      else (Inr None, s))"
  by pat_completeness auto
termination
proof (relation "measure (\<lambda>(env, page, deadline, s). deadline - clock s)")
  show "wf (measure (\<lambda>(env :: 'w env, page :: page, deadline, s :: 'w st). deadline - clock s))"
    by simp
next
  fix env :: "'w env" and page deadline and s :: "'w st" and x1 s1 r opt
  assume lt: "clock s < deadline" and st: "(x1, s1) = poll_loaded_step env page s"
  have "clock s \<le> clock s1"
    using clock_monoD [OF clock_mono_poll_loaded_step st [symmetric]] .
  then show "((env, page, deadline, snd (sleep (SCREENSHOT_POLL_INTERVAL_S * 1000) s1)),
              (env, page, deadline, s))
             \<in> measure (\<lambda>(env, page, deadline, s). deadline - clock s)"
    using lt by (simp add: sleep_def SCREENSHOT_POLL_INTERVAL_S_def)
qed

declare poll_loaded_loop.simps [simp del]

definition poll_for_loaded_image :: "'w env \<Rightarrow> page \<Rightarrow> nat \<Rightarrow> ('w, bytes option) io" where
  "poll_for_loaded_image env page timeout_ms =
     bnd time_now (\<lambda>t. poll_loaded_loop env page (t + timeout_ms))"

fun str_nat :: "nat \<Rightarrow> string" where
  "str_nat n = (if n < 10 then [char_of (48 + n)]
                else str_nat (n div 10) @ [char_of (48 + n mod 10)])"

declare str_nat.simps [simp del]

definition str_int :: "int \<Rightarrow> string" where
  \<comment> \<open>\<open>str(i)\<close>, as in an f-string\<close>
  "str_int i = (if i < 0 then CHR ''-'' # str_nat (nat (- i)) else str_nat (nat i))"

definition failure_result :: "string \<Rightarrow> pydict" where
  \<comment> \<open>the dict returned after the retry loop\<close>
  "failure_result last_error =
     [(''success'', PyBool False),
      (''path'', PyStr []),
      (''generation_time_ms'', PyInt 0),
      (''error'', PyStr (''Failed after '' @ str_nat RETRY_ATTEMPTS @ '' attempts: '' @ last_error))]"

definition success_result :: "string \<Rightarrow> int \<Rightarrow> pydict" where
  "success_result output_path elapsed_ms =
     [(''success'', PyBool True),
      (''path'', PyStr output_path),
      (''generation_time_ms'', PyInt elapsed_ms)]"

text \<open>
  The block repeated at every recoverable failure, after \<open>last_error\<close> is set:
  \<^verbatim>\<open>if attempt < RETRY_ATTEMPTS: await close_page(page); await asyncio.sleep(DELAY); continue\<close>
  and then \<^verbatim>\<open>break\<close>.
\<close>

definition retry_or_break :: "'w env \<Rightarrow> page \<Rightarrow> nat \<Rightarrow> nat \<Rightarrow> string \<Rightarrow> ('w, loop_exit) io" where
  "retry_or_break env page attempt delay_s last_error =
     (if attempt < RETRY_ATTEMPTS then
        bnd (close_page env page) (\<lambda>_.
        bnd (sleep (delay_s * 1000)) (\<lambda>_.
        ret (Next last_error)))
      else ret (Break last_error))"

text \<open>
  The \<open>except Exception as e\<close> block of both workflows; \<open>page\<close> is \<open>None\<close> when
  \<open>get_page\<close> itself raised.
\<close>

definition attempt_except :: "'w env \<Rightarrow> page option \<Rightarrow> nat \<Rightarrow> nat \<Rightarrow> pyexn \<Rightarrow> ('w, loop_exit) io" where
  "attempt_except env page attempt delay_s e =
     bnd (case page of None \<Rightarrow> ret () | Some p \<Rightarrow> close_page env p) (\<lambda>_.
     bnd (if attempt < RETRY_ATTEMPTS then sleep (delay_s * 1000) else ret ()) (\<lambda>_.
     ret (Next (exn_message e))))"

definition editor_sel :: string where
  "editor_sel = ''[contenteditable=\"true\"]''"

definition grok_save :: "'w env \<Rightarrow> string \<Rightarrow> page \<Rightarrow> nat \<Rightarrow> bytes \<Rightarrow> ('w, loop_exit) io" where
  \<comment> \<open>from \<open>out = Path(output_path)\<close> to the \<open>return\<close>\<close>
  "grok_save env output_path page start_time image_data =
     bnd (call env (mkdir_parents env output_path)) (\<lambda>_.
     bnd (path_write_bytes env output_path image_data) (\<lambda>_.
     bnd time_now (\<lambda>t.
     bnd (close_page env page) (\<lambda>_.
     ret (Return (success_result output_path (int t - int start_time)))))))"

definition grok_try :: "'w env \<Rightarrow> string \<Rightarrow> string \<Rightarrow> nat \<Rightarrow> page \<Rightarrow> nat \<Rightarrow> ('w, loop_exit) io" where
  \<comment> \<open>the \<open>try\<close> block after \<open>page = await get_page(GROK_URL)\<close>\<close>
  "grok_try env prompt output_path attempt page start_time =
     bnd (sleep 3000) (\<lambda>_.
     bnd (call env (page_url env page)) (\<lambda>url1.
     bnd (if contains url1 ''login'' then ret True
          else bnd (call env (page_url env page)) (\<lambda>url2. ret (contains url2 ''oauth''))) (\<lambda>redirected.
     if redirected then
       retry_or_break env page attempt RETRY_DELAY_S
         ''Redirected to login. Log in to X/Grok first (SMI_HEADLESS=false)''
     else
     bnd (wait_for_element env page editor_sel 15000) (\<lambda>found.
     if \<not> found then
       retry_or_break env page attempt RETRY_DELAY_S
         ''Could not find prompt editor on Grok Imagine page''
     else
     bnd (page_query_selector env page editor_sel) (\<lambda>editor.
     bnd (deref editor) (\<lambda>ed.
     bnd (elem_click env ed) (\<lambda>_.
     bnd (call env (keyboard_press env page ''Control+a'')) (\<lambda>_.
     bnd (call env (keyboard_press env page ''Backspace'')) (\<lambda>_.
     bnd (call env (keyboard_type env page prompt 10)) (\<lambda>_.
     bnd (sleep 500) (\<lambda>_.
     bnd (page_query_selector env page ''button[aria-label=\"Submit\"]'') (\<lambda>submit.
     case submit of
       None \<Rightarrow> retry_or_break env page attempt RETRY_DELAY_S ''Could not find Submit button''
     | Some sb \<Rightarrow>
     bnd (elem_click env sb) (\<lambda>_.
     bnd (sleep 20000) (\<lambda>_.
     bnd (poll_for_loaded_image env page DEFAULT_TIMEOUT_MS) (\<lambda>image_data.
     case image_data of
       None \<Rightarrow> retry_or_break env page attempt RETRY_DELAY_S
                 ''No full-res image found after generation''
     | Some b \<Rightarrow>
         if b = [] then
           retry_or_break env page attempt RETRY_DELAY_S
             ''No full-res image found after generation''
         else grok_save env output_path page start_time b)))))))))))))))"

definition grok_attempt :: "'w env \<Rightarrow> string \<Rightarrow> string \<Rightarrow> nat \<Rightarrow> ('w, loop_exit) io" where
  \<comment> \<open>one iteration of \<open>for attempt in range(1, RETRY_ATTEMPTS + 1)\<close>\<close>
  "grok_attempt env prompt output_path attempt =
     (\<lambda>s0. case get_page env GROK_URL s0 of
              (Inl e, s1) \<Rightarrow> attempt_except env None attempt RETRY_DELAY_S e s1
            | (Inr page, s1) \<Rightarrow>
                try_except (grok_try env prompt output_path attempt page (clock s0))
                  (attempt_except env (Some page) attempt RETRY_DELAY_S) s1)"

fun grok_loop :: "'w env \<Rightarrow> string \<Rightarrow> string \<Rightarrow> nat list \<Rightarrow> string \<Rightarrow> ('w, pydict) io" where
  "grok_loop env prompt output_path [] last_error = ret (failure_result last_error)"
| "grok_loop env prompt output_path (attempt # rest) last_error =
     bnd (grok_attempt env prompt output_path attempt) (\<lambda>x.
       case x of
         Return r \<Rightarrow> ret r
       | Break e \<Rightarrow> ret (failure_result e)
       | Next e \<Rightarrow> grok_loop env prompt output_path rest e)"

definition generate_grok_image :: "'w env \<Rightarrow> string \<Rightarrow> string \<Rightarrow> string \<Rightarrow> ('w, pydict) io" where
  "generate_grok_image env prompt output_path aspect_ratio =
     grok_loop env prompt output_path [1..<RETRY_ATTEMPTS + 1] []"

section \<open>sora.py\<close>

definition button_has_text :: "string \<Rightarrow> string" where
  "button_has_text label = ''button:has-text(\"'' @ label @ ''\")''"

fun find_duration_button :: "'w env \<Rightarrow> page \<Rightarrow> string list \<Rightarrow> ('w, elem option) io" where
  \<comment> \<open>\<open>for label in [...]: dur_btn = ...; if dur_btn: break\<close>\<close>
  "find_duration_button env page [] = ret None"
| "find_duration_button env page (label # labels) =
     bnd (page_query_selector env page (button_has_text label)) (\<lambda>dur_btn.
       case dur_btn of
         Some b \<Rightarrow> ret (Some b)
       | None \<Rightarrow> find_duration_button env page labels)"

definition set_duration :: "'w env \<Rightarrow> page \<Rightarrow> int \<Rightarrow> ('w, unit) io" where
  "set_duration env page duration =
     try_except
       (bnd (find_duration_button env page [''10s'', ''5s'', ''15s'', ''20s'', ''25s'']) (\<lambda>dur_btn.
        case dur_btn of
          None \<Rightarrow> ret ()
        | Some b \<Rightarrow>
            bnd (elem_click env b) (\<lambda>_.
            bnd (sleep 1000) (\<lambda>_.
            bnd (call env (text_count env page (str_int duration @ '' seconds'') True)) (\<lambda>n.
            if 0 < n then
              bnd (call env (text_first_click env page (str_int duration @ '' seconds'') True)) (\<lambda>_.
              sleep 500)
            else ret ())))))
       (\<lambda>e. ret ())"

definition scene_cards_step :: "'w env \<Rightarrow> page \<Rightarrow> ('w, bool) io" where
  \<comment> \<open>the body of the \<open>while\<close> loop of \<open>_wait_for_scene_cards\<close> up to the sleep\<close>
  "scene_cards_step env page =
     bnd (page_query_selector_all env page ''[class*=\"scene\"], [data-testid*=\"scene\"]'') (\<lambda>scenes.
     if 1 \<le> length scenes then ret True
     else bnd (call env (text_count env page ''Scene 1'' False)) (\<lambda>n. ret (0 < n)))"

lemma clock_mono_scene_cards_step: "clock_mono (scene_cards_step env page)"
  unfolding scene_cards_step_def
  by (auto intro!: clock_mono_intros clock_mono_page_query_selector_all)

function scene_cards_loop :: "'w env \<Rightarrow> page \<Rightarrow> nat \<Rightarrow> ('w, bool) io" where
  "scene_cards_loop env page deadline s =
     (if clock s < deadline then
        (case scene_cards_step env page s of
           (Inl e, s1) \<Rightarrow> (Inl e, s1)
         | (Inr True, s1) \<Rightarrow> (Inr True, s1)
         | (Inr False, s1) \<Rightarrow> scene_cards_loop env page deadline (snd (sleep 5000 s1)))
      else (Inr False, s))"
  by pat_completeness auto
termination
proof (relation "measure (\<lambda>(env, page, deadline, s). deadline - clock s)")
  show "wf (measure (\<lambda>(env :: 'w env, page :: page, deadline, s :: 'w st). deadline - clock s))"
    by simp
next
  fix env :: "'w env" and page deadline and s :: "'w st" and x1 s1 r
  assume lt: "clock s < deadline" and st: "(x1, s1) = scene_cards_step env page s"
  have "clock s \<le> clock s1"
    using clock_monoD [OF clock_mono_scene_cards_step st [symmetric]] .
  then show "((env, page, deadline, snd (sleep 5000 s1)), (env, page, deadline, s))
             \<in> measure (\<lambda>(env, page, deadline, s). deadline - clock s)"
    using lt by (simp add: sleep_def)
qed

declare scene_cards_loop.simps [simp del]

definition wait_for_scene_cards :: "'w env \<Rightarrow> page \<Rightarrow> nat \<Rightarrow> ('w, bool) io" where
  "wait_for_scene_cards env page timeout_s =
     bnd time_now (\<lambda>t. scene_cards_loop env page (t + timeout_s * 1000))"

fun collect_hrefs :: "'w env \<Rightarrow> elem list \<Rightarrow> string list \<Rightarrow> ('w, string list) io" where
  \<comment> \<open>\<open>for link in links: href = ...; if href: hrefs.append(href)\<close>\<close>
  "collect_hrefs env [] hrefs = ret hrefs"
| "collect_hrefs env (link # links) hrefs =
     bnd (elem_get_attribute env link ''href'') (\<lambda>href.
       collect_hrefs env links (if or_empty href \<noteq> [] then hrefs @ [or_empty href] else hrefs))"

definition get_draft_hrefs :: "'w env \<Rightarrow> page \<Rightarrow> ('w, string list) io" where
  "get_draft_hrefs env page =
     bnd (page_query_selector_all env page ''a[href^=\"/d/\"]'') (\<lambda>links.
     collect_hrefs env links [])"

definition new_hrefs :: "string list \<Rightarrow> string set \<Rightarrow> string list" where
  \<comment> \<open>\<open>[h for h in current_hrefs if h not in existing_draft_set]\<close>\<close>
  "new_hrefs current_hrefs existing_draft_set = filter (\<lambda>h. h \<notin> existing_draft_set) current_hrefs"

lemma clock_mono_collect_hrefs: "clock_mono (collect_hrefs env links hrefs)"
  by (induction links arbitrary: hrefs)
     (auto intro!: clock_mono_intros clock_mono_elem_get_attribute)

lemma clock_mono_get_draft_hrefs: "clock_mono (get_draft_hrefs env page)"
  unfolding get_draft_hrefs_def
  by (intro clock_mono_bnd clock_mono_page_query_selector_all clock_mono_collect_hrefs)

function poll_drafts_loop :: "'w env \<Rightarrow> page \<Rightarrow> string set \<Rightarrow> nat \<Rightarrow> ('w, string option) io" where
  "poll_drafts_loop env page existing_draft_set deadline s =
     (if clock s < deadline then
        (case get_draft_hrefs env page s of
           (Inl e, s1) \<Rightarrow> (Inl e, s1)
         | (Inr current_hrefs, s1) \<Rightarrow>
             (case new_hrefs current_hrefs existing_draft_set of
                h # hs \<Rightarrow> (Inr (Some h), s1)
              | [] \<Rightarrow>
                  (case call env (reload env page) s1 of
                     (Inl e, s2) \<Rightarrow> (Inl e, s2)
                   | (Inr u, s2) \<Rightarrow>
                       poll_drafts_loop env page existing_draft_set deadline
                         (snd (sleep (SORA_DRAFT_POLL_INTERVAL_S * 1000) s2)))))
      else (Inr None, s))"
  by pat_completeness auto
termination
proof (relation "measure (\<lambda>(env, page, existing, deadline, s). deadline - clock s)")
  show "wf (measure (\<lambda>(env :: 'w env, page :: page, existing :: string set, deadline, s :: 'w st).
              deadline - clock s))"
    by simp
next
  fix env :: "'w env" and page existing deadline and s :: "'w st" and x1 s1 r x2 s2 u
  assume lt: "clock s < deadline" and st: "(x1, s1) = get_draft_hrefs env page s"
    and rl: "(x2, s2) = call env (reload env page) s1"
  have "clock s \<le> clock s1"
    using clock_monoD [OF clock_mono_get_draft_hrefs st [symmetric]] .
  moreover have "clock s1 \<le> clock s2"
    using clock_monoD [OF clock_mono_call rl [symmetric]] .
  ultimately show "((env, page, existing, deadline, snd (sleep (SORA_DRAFT_POLL_INTERVAL_S * 1000) s2)),
                    (env, page, existing, deadline, s))
             \<in> measure (\<lambda>(env, page, existing, deadline, s). deadline - clock s)"
    using lt by (simp add: sleep_def SORA_DRAFT_POLL_INTERVAL_S_def)
qed

declare poll_drafts_loop.simps [simp del]

definition poll_drafts_for_new :: "'w env \<Rightarrow> page \<Rightarrow> string set \<Rightarrow> nat \<Rightarrow> ('w, string option) io" where
  "poll_drafts_for_new env page existing_draft_set timeout_ms =
     bnd time_now (\<lambda>t. poll_drafts_loop env page existing_draft_set (t + timeout_ms))"

definition master_sel :: string where
  "master_sel = ''textarea[placeholder*=\"Describe your video\"]''"

definition create_sel :: string where
  "create_sel = ''button:has-text(\"Create\")''"

definition create_aria_sel :: string where
  "create_aria_sel = ''button[aria-label=\"Create\"]''"

definition em_dash :: string where
  \<comment> \<open>the one non-ASCII character of the module (U+2014), as its UTF-8 bytes\<close>
  "em_dash = [char_of (226 :: nat), char_of (128 :: nat), char_of (148 :: nat)]"

definition timed_out_error :: string where
  "timed_out_error = ''Video generation timed out '' @ em_dash @ '' no new draft appeared''"

definition sora_download :: "'w env \<Rightarrow> string \<Rightarrow> page \<Rightarrow> nat \<Rightarrow> string \<Rightarrow> ('w, loop_exit) io" where
  \<comment> \<open>steps 9 and 10: open the detail view of the new draft and download the video\<close>
  "sora_download env output_path page start_time new_draft_href =
     bnd (page_query_selector env page (''a[href=\"'' @ new_draft_href @ ''\"]'')) (\<lambda>tile_link.
     bnd (case tile_link of
            Some t \<Rightarrow> elem_click env t
          | None \<Rightarrow> call env (goto env page (''https://sora.chatgpt.com'' @ new_draft_href))) (\<lambda>_.
     bnd (sleep 5000) (\<lambda>_.
     bnd (page_query_selector env page ''video'') (\<lambda>video_el.
     case video_el of
       None \<Rightarrow> ret (Break ''No <video> element found on detail page'')
     | Some v \<Rightarrow>
     bnd (elem_get_attribute env v ''src'') (\<lambda>a.
     if \<not> startswith (or_empty a) ''http'' then
       ret (Break (''Video src is not a URL: '' @ take 80 (or_empty a)))
     else
     bnd (call env (mkdir_parents env output_path)) (\<lambda>_.
     bnd (call env (request_get env page (or_empty a))) (\<lambda>_.
     bnd (call env (response_body env page (or_empty a))) (\<lambda>content.
     bnd (path_write_bytes env output_path content) (\<lambda>_.
     bnd time_now (\<lambda>t.
     bnd (close_page env page) (\<lambda>_.
     ret (Return (success_result output_path (int t - int start_time))))))))))))))"

definition sora_await_new_entry :: "'w env \<Rightarrow> string \<Rightarrow> page \<Rightarrow> nat \<Rightarrow> string set \<Rightarrow> ('w, loop_exit) io" where
  \<comment> \<open>step 8 and what follows: everything after the sleep that follows the Create click\<close>
  "sora_await_new_entry env output_path page start_time existing_drafts =
     bnd (call env (goto env page SORA_DRAFTS_URL)) (\<lambda>_.
     bnd (sleep 3000) (\<lambda>_.
     bnd (poll_drafts_for_new env page existing_drafts SORA_TIMEOUT_MS) (\<lambda>new_draft_href.
     if or_empty new_draft_href = [] then ret (Break timed_out_error)
     else sora_download env output_path page start_time (or_empty new_draft_href))))"

definition sora_commit :: "'w env \<Rightarrow> page \<Rightarrow> nat \<Rightarrow> ('w, loop_exit + unit) io" where
  \<comment> \<open>step 7: find the Create button and click it; \<open>Inl\<close> when the attempt ends here.
      \<open>create_clicked\<close> is set to \<open>False\<close> at the start of the step, so the guard
      \<open>if not create_clicked\<close> always holds.\<close>
  "sora_commit env page attempt =
     bnd (page_query_selector env page create_sel) (\<lambda>b1.
     bnd (case b1 of
            Some b \<Rightarrow> ret (Some b)
          | None \<Rightarrow> page_query_selector env page create_aria_sel) (\<lambda>create_btn.
     case create_btn of
       None \<Rightarrow> bnd (retry_or_break env page attempt SORA_RETRY_DELAY_S ''Could not find Create button'')
                 (\<lambda>x. ret (Inl x))
     | Some b \<Rightarrow>
         bnd (elem_click env b) (\<lambda>_.
         bnd (sleep 5000) (\<lambda>_.
         ret (Inr ())))))"

definition sora_snapshot :: "'w env \<Rightarrow> ('w, string set) io" where
  \<comment> \<open>step 6: the drafts that exist before Create is clicked\<close>
  "sora_snapshot env =
     bnd (get_page env SORA_DRAFTS_URL) (\<lambda>drafts_page.
     bnd (sleep 3000) (\<lambda>_.
     bnd (get_draft_hrefs env drafts_page) (\<lambda>hrefs.
     bnd (close_page env drafts_page) (\<lambda>_.
     ret (set hrefs)))))"

definition sora_prepare :: "'w env \<Rightarrow> string \<Rightarrow> int \<Rightarrow> nat \<Rightarrow> page \<Rightarrow> ('w, loop_exit + string set) io" where
  \<comment> \<open>steps 1 to 6 of the \<open>try\<close> block, after \<open>page = await get_page(SORA_STORYBOARD_URL)\<close>:
      \<open>Inl\<close> when the attempt ends here, else the snapshot \<open>existing_drafts\<close>\<close>
  "sora_prepare env prompt duration attempt page =
     bnd (sleep 5000) (\<lambda>_.
     bnd (call env (page_url env page)) (\<lambda>url.
     if contains url ''login'' then
       bnd (retry_or_break env page attempt SORA_RETRY_DELAY_S
              (''Redirected to login. Please log in to ChatGPT/Sora first '' @
               ''(requires ChatGPT Plus/Pro, run with SMI_HEADLESS=false)''))
         (\<lambda>x. ret (Inl x))
     else
     bnd (set_duration env page duration) (\<lambda>_.
     bnd (wait_for_element env page master_sel 15000) (\<lambda>found.
     if \<not> found then
       bnd (retry_or_break env page attempt SORA_RETRY_DELAY_S
              ''Could not find master prompt textarea ('Describe your video...')'')
         (\<lambda>x. ret (Inl x))
     else
     bnd (page_query_selector env page master_sel) (\<lambda>textarea.
     bnd (deref textarea) (\<lambda>ta.
     bnd (elem_click env ta) (\<lambda>_.
     bnd (call env (fill env ta prompt)) (\<lambda>_.
     bnd (sleep 1000) (\<lambda>_.
     bnd (call env (keyboard_press env page ''Enter'')) (\<lambda>_.
     bnd (sleep 3000) (\<lambda>_.
     bnd (wait_for_scene_cards env page 600) (\<lambda>scene_cards_found.
     bnd (sora_snapshot env) (\<lambda>existing_drafts.
     ret (Inr existing_drafts))))))))))))))"

definition sora_try :: "'w env \<Rightarrow> string \<Rightarrow> string \<Rightarrow> int \<Rightarrow> nat \<Rightarrow> page \<Rightarrow> nat \<Rightarrow> ('w, loop_exit) io" where
  \<comment> \<open>the \<open>try\<close> block after \<open>page = await get_page(SORA_STORYBOARD_URL)\<close>\<close>
  "sora_try env prompt output_path duration attempt page start_time =
     bnd (sora_prepare env prompt duration attempt page) (\<lambda>p.
     case p of
       Inl x \<Rightarrow> ret x
     | Inr existing_drafts \<Rightarrow>
         bnd (sora_commit env page attempt) (\<lambda>c.
         case c of
           Inl x \<Rightarrow> ret x
         | Inr u \<Rightarrow> sora_await_new_entry env output_path page start_time existing_drafts))"

definition sora_attempt :: "'w env \<Rightarrow> string \<Rightarrow> string \<Rightarrow> int \<Rightarrow> nat \<Rightarrow> ('w, loop_exit) io" where
  \<comment> \<open>one iteration of \<open>for attempt in range(1, RETRY_ATTEMPTS + 1)\<close>\<close>
  "sora_attempt env prompt output_path duration attempt =
     (\<lambda>s0. case get_page env SORA_STORYBOARD_URL s0 of
              (Inl e, s1) \<Rightarrow> attempt_except env None attempt SORA_RETRY_DELAY_S e s1
            | (Inr page, s1) \<Rightarrow>
                try_except (sora_try env prompt output_path duration attempt page (clock s0))
                  (attempt_except env (Some page) attempt SORA_RETRY_DELAY_S) s1)"

fun sora_loop :: "'w env \<Rightarrow> string \<Rightarrow> string \<Rightarrow> int \<Rightarrow> nat list \<Rightarrow> string \<Rightarrow> ('w, pydict) io" where
  "sora_loop env prompt output_path duration [] last_error = ret (failure_result last_error)"
| "sora_loop env prompt output_path duration (attempt # rest) last_error =
     bnd (sora_attempt env prompt output_path duration attempt) (\<lambda>x.
       case x of
         Return r \<Rightarrow> ret r
       | Break e \<Rightarrow> ret (failure_result e)
       | Next e \<Rightarrow> sora_loop env prompt output_path duration rest e)"

definition generate_sora_video :: "'w env \<Rightarrow> string \<Rightarrow> string \<Rightarrow> int \<Rightarrow> string \<Rightarrow> ('w, pydict) io" where
  "generate_sora_video env prompt output_path duration aspect_ratio =
     sora_loop env prompt output_path duration [1..<RETRY_ATTEMPTS + 1] []"

section \<open>server.py: the tool surface\<close>

text \<open>\<open>str(Path(output_dir) / filename)\<close> is the parameter \<open>path_join\<close>.\<close>

definition generate_image ::
  "'w env \<Rightarrow> (string \<Rightarrow> string \<Rightarrow> string) \<Rightarrow> string \<Rightarrow> string \<Rightarrow> string \<Rightarrow> string \<Rightarrow> ('w, pydict) io" where
  "generate_image env path_join prompt output_dir filename aspect_ratio =
     generate_grok_image env prompt (path_join output_dir filename) aspect_ratio"

definition generate_video ::
  "'w env \<Rightarrow> (string \<Rightarrow> string \<Rightarrow> string) \<Rightarrow> string \<Rightarrow> string \<Rightarrow> string \<Rightarrow> int \<Rightarrow> string \<Rightarrow> ('w, pydict) io" where
  "generate_video env path_join prompt output_dir filename duration aspect_ratio =
     generate_sora_video env prompt (path_join output_dir filename) duration aspect_ratio"

section \<open>Properties of the metric parsers\<close>

lemmas parser_defs =
  parse_number_def parse_distribution_def py_str_def py_strip_def is_space_def remove_char_def
  transform_decimal_and_space_def decimal_value_def decimal_zeros_def c_strip_def c_isspace_def
  py_int_def py_int_abs_def is_digit_def digit_val_def max_str_digits_def
  py_float_def py_float_abs_def float_exponent_def scale10_def lower_char_def

lemma set_strip_subset: "set (rev (dropWhile P (rev (dropWhile P s)))) \<subseteq> set s"
proof -
  have drop: "set (dropWhile P xs) \<subseteq> set xs" for xs :: "'a list"
    by (auto dest: set_dropWhileD)
  have "set (rev (dropWhile P (rev (dropWhile P s)))) = set (dropWhile P (rev (dropWhile P s)))"
    by simp
  also have "\<dots> \<subseteq> set (rev (dropWhile P s))" by (rule drop)
  also have "\<dots> = set (dropWhile P s)" by simp
  also have "\<dots> \<subseteq> set s" by (rule drop)
  finally show ?thesis .
qed

lemma set_py_strip: "set (py_strip s) \<subseteq> set s"
  unfolding py_strip_def by (rule set_strip_subset)

lemma set_c_strip: "set (c_strip s) \<subseteq> set s"
  unfolding c_strip_def by (rule set_strip_subset)

lemma is_digit_decimal_value: "is_digit c \<Longrightarrow> decimal_value c = Some (c - 48)"
  by (simp add: is_digit_def decimal_value_def decimal_zeros_def)

lemma to_ascii_no_digit:
  assumes "\<forall>c\<in>set s. decimal_value c = None"
  shows "\<forall>d\<in>set (to_ascii s). \<not> is_digit d"
  using assms
proof (induction s)
  case Nil
  then show ?case by simp
next
  case (Cons c cs)
  then have c: "\<not> is_digit c" and ih: "\<forall>d\<in>set (to_ascii cs). \<not> is_digit d"
    by (auto dest: is_digit_decimal_value)
  from Cons.prems have "decimal_value c = None" by simp
  with c ih show ?case by (simp add: is_digit_def)
qed

lemma transform_no_digit:
  assumes "\<forall>c\<in>set s. decimal_value c = None"
  shows "\<forall>d\<in>set (transform_decimal_and_space s). \<not> is_digit d"
proof (cases "list_all (\<lambda>c. c < 128) s")
  case True
  with assms show ?thesis
    by (auto simp: transform_decimal_and_space_def dest: is_digit_decimal_value)
next
  case False
  with to_ascii_no_digit [OF assms] show ?thesis
    by (simp add: transform_decimal_and_space_def)
qed

lemma span_digits_no_digit:
  assumes "\<forall>c\<in>set s. \<not> is_digit c"
  shows "span_digits acc n s = (acc, n, s)"
proof (cases s)
  case Nil
  then show ?thesis by simp
next
  case (Cons c cs)
  with assms have "\<not> is_digit c" by simp
  moreover have "cs \<noteq> [] \<Longrightarrow> \<not> is_digit (hd cs)"
    using assms Cons by (cases cs) simp_all
  ultimately show ?thesis using Cons by auto
qed

lemma py_int_abs_raises_value_error: "py_int_abs s = Inl e \<Longrightarrow> exn_is_value_error e"
  by (auto simp: py_int_abs_def split: prod.splits if_splits)

lemma map_sum_id_InlD: "map_sum id f x = Inl e \<Longrightarrow> x = Inl e"
  by (cases x) simp_all

lemma py_int_raises_value_error:
  assumes "py_int s = Inl e"
  shows "exn_is_value_error e"
proof (cases "c_strip (transform_decimal_and_space s)")
  case Nil
  with assms show ?thesis by (auto simp: py_int_def)
next
  case (Cons c cs)
  with assms have "py_int_abs cs = Inl e \<or> py_int_abs (c # cs) = Inl e"
    by (auto simp: py_int_def split: if_splits dest: map_sum_id_InlD)
  then show ?thesis by (auto dest: py_int_abs_raises_value_error)
qed

lemma py_int_no_digit:
  assumes "\<forall>c\<in>set s. decimal_value c = None"
  shows "\<exists>e. py_int s = Inl e"
proof (cases "c_strip (transform_decimal_and_space s)")
  case Nil
  then show ?thesis by (simp add: py_int_def)
next
  case (Cons c cs)
  have "set (c_strip (transform_decimal_and_space s)) \<subseteq> set (transform_decimal_and_space s)"
    by (rule set_c_strip)
  with transform_no_digit [OF assms] Cons have nd: "\<forall>d\<in>set (c # cs). \<not> is_digit d" by auto
  then have nd': "\<forall>d\<in>set cs. \<not> is_digit d" by simp
  have "\<exists>e. py_int_abs (c # cs) = Inl e"
    using span_digits_no_digit [OF nd, of 0 0] by (simp add: py_int_abs_def)
  moreover have "\<exists>e. py_int_abs cs = Inl e"
    using span_digits_no_digit [OF nd', of 0 0] by (simp add: py_int_abs_def)
  ultimately show ?thesis using Cons by (auto simp: py_int_def)
qed

lemma parse_number_total: "\<exists>n. parse_number t = Inr n"
proof -
  have "\<And>e u. py_int u = Inl e \<Longrightarrow> exn_is_value_error e"
    by (rule py_int_raises_value_error)
  then show ?thesis
    by (auto simp: parse_number_def Let_def split: sum.splits)
qed

lemma parse_number_rejected:
  assumes "py_int (remove_char (ord CHR '','') (py_strip t)) = Inl e"
  shows "parse_number t = Inr 0"
  using assms py_int_raises_value_error [OF assms]
  by (simp add: parse_number_def Let_def)

lemma parse_number_no_digit:
  assumes "\<forall>c\<in>set t. decimal_value c = None"
  shows "parse_number t = Inr 0"
proof -
  have "set (py_strip t) \<subseteq> set t" by (rule set_py_strip)
  then have "\<forall>c\<in>set (remove_char (ord CHR '','') (py_strip t)). decimal_value c = None"
    using assms by (auto simp: remove_char_def)
  from py_int_no_digit [OF this] obtain e
    where "py_int (remove_char (ord CHR '','') (py_strip t)) = Inl e" ..
  then show ?thesis by (rule parse_number_rejected)
qed

text \<open>
  The separators 28 to 31 are whitespace for \<open>str.strip\<close> and not for \<open>int()\<close> and
  \<open>float()\<close>; a no-break space and the digits of other scripts are read by both.
\<close>

lemma parsers_on_separators_and_other_digits:
  "parse_number [49, 50, 28, 44] = Inr 0 \<and>
   parse_number [28, 49, 50, 28] = Inr 12 \<and>
   parse_number [160, 49, 50] = Inr 12 \<and>
   parse_number [1633, 1634, 1635] = Inr 123 \<and>
   parse_number [49, 8364] = Inr 0 \<and>
   parse_distribution [120, 28, 48, 46, 51] = Inr None \<and>
   parse_distribution [1633, 46, 1637, 120] = Inr (Some (Finite (3 / 2)))"
  by (simp add: parser_defs)

text \<open>
  C8.  The parsers give the values of the examples: \<open>parse_number\<close> maps
  \<open>"6,069,415"\<close> to 6069415, \<open>"--"\<close> to 0 and \<open>"999"\<close> to 999; \<open>parse_distribution\<close> maps
  \<open>"+0.3x"\<close> to 0.3, \<open>"-0.3x"\<close> to -0.3 and \<open>"--"\<close> to \<open>None\<close>.  \<open>parse_number\<close> never
  raises, and it returns 0 on every text that \<open>int()\<close> rejects after the text is stripped
  and the commas are removed, in particular on every text without a decimal digit
  (placeholder dashes, empty or blank cells).
\<close>

theorem metric_parsers_examples_and_totality:
  "parse_number (py_str ''6,069,415'') = Inr 6069415 \<and>
   parse_number (py_str ''--'') = Inr 0 \<and>
   parse_number (py_str ''999'') = Inr 999 \<and>
   parse_distribution (py_str ''+0.3x'') = Inr (Some (Finite (3 / 10))) \<and>
   parse_distribution (py_str ''-0.3x'') = Inr (Some (Finite (- (3 / 10)))) \<and>
   parse_distribution (py_str ''--'') = Inr None \<and>
   (\<forall>t. \<exists>n. parse_number t = Inr n) \<and>
   (\<forall>t. (\<exists>e. py_int (remove_char (ord CHR '','') (py_strip t)) = Inl e) \<longrightarrow>
          parse_number t = Inr 0) \<and>
   (\<forall>t. (\<forall>c\<in>set t. decimal_value c = None) \<longrightarrow> parse_number t = Inr 0)"
proof (intro conjI allI impI)
  show "parse_number (py_str ''6,069,415'') = Inr 6069415" by (simp add: parser_defs)
  show "parse_number (py_str ''--'') = Inr 0" by (simp add: parser_defs)
  show "parse_number (py_str ''999'') = Inr 999" by (simp add: parser_defs)
  show "parse_distribution (py_str ''+0.3x'') = Inr (Some (Finite (3 / 10)))"
    by (simp add: parser_defs)
  show "parse_distribution (py_str ''-0.3x'') = Inr (Some (Finite (- (3 / 10))))"
    by (simp add: parser_defs)
  show "parse_distribution (py_str ''--'') = Inr None" by (simp add: parser_defs)
  show "\<exists>n. parse_number t = Inr n" for t by (rule parse_number_total)
  show "parse_number t = Inr 0"
    if "\<exists>e. py_int (remove_char (ord CHR '','') (py_strip t)) = Inl e" for t
    using that parse_number_rejected by blast
  show "parse_number t = Inr 0" if "\<forall>c\<in>set t. decimal_value c = None" for t
    using that by (rule parse_number_no_digit)
qed

theorem metric_parsers_witness:
  "(\<exists>e. py_int (remove_char (ord CHR '','') (py_strip (py_str ''1.2K''))) = Inl e) \<and>
   parse_number (py_str ''1.2K'') = Inr 0 \<and>
   list_all (\<lambda>c. decimal_value c = None) (py_str '' - - '') \<and>
   parse_number (py_str '' - - '') = Inr 0"
proof -
  have rej: "\<exists>e. py_int (remove_char (ord CHR '','') (py_strip (py_str ''1.2K''))) = Inl e"
    by (simp add: parser_defs)
  have nd: "\<forall>c\<in>set (py_str '' - - ''). decimal_value c = None"
    by (simp add: parser_defs)
  from metric_parsers_examples_and_totality
  have r1: "(\<exists>e. py_int (remove_char (ord CHR '','') (py_strip (py_str ''1.2K''))) = Inl e) \<longrightarrow>
              parse_number (py_str ''1.2K'') = Inr 0"
    and r2: "(\<forall>c\<in>set (py_str '' - - ''). decimal_value c = None) \<longrightarrow>
               parse_number (py_str '' - - '') = Inr 0"
    by blast+
  from rej r1 nd r2 show ?thesis by (simp add: list_all_iff)
qed

section \<open>Properties of browser.py\<close>

text \<open>
  C9.  \<open>wait_for_element\<close> never raises, for every page, selector, timeout, environment
  and state: it returns \<open>True\<close> when \<open>page.wait_for_selector\<close> returns (the element
  appeared within the timeout) and \<open>False\<close> when it raises, whether the timeout error or
  any other one.
\<close>

theorem wait_for_element_never_raises:
  "(\<exists>b s'. wait_for_element env page selector timeout_ms s = (Inr b, s')) \<and>
   wait_for_element env page selector timeout_ms s =
     (case call env (wait_for_selector env page selector timeout_ms) s of
        (Inl e, s') \<Rightarrow> (Inr False, s')
      | (Inr u, s') \<Rightarrow> (Inr True, s'))"
  by (auto simp: wait_for_element_def try_except_def bnd_def ret_def
           split: prod.splits sum.splits)

section \<open>The aspect ratio\<close>

text \<open>
  C10.  Neither workflow reads its \<open>aspect_ratio\<close> argument, and the tool surface only
  passes it on: two runs that differ in nothing but the aspect ratio return the same
  result and leave the same state, events included.
\<close>

theorem aspect_ratio_is_ignored:
  "generate_grok_image env prompt output_path a1 = generate_grok_image env prompt output_path a2 \<and>
   generate_sora_video env prompt output_path duration a1 =
     generate_sora_video env prompt output_path duration a2 \<and>
   generate_image env path_join prompt output_dir filename a1 =
     generate_image env path_join prompt output_dir filename a2 \<and>
   generate_video env path_join prompt output_dir filename duration a1 =
     generate_video env path_join prompt output_dir filename duration a2"
  by (simp add: generate_grok_image_def generate_sora_video_def generate_image_def
        generate_video_def)

section \<open>Concrete environments\<close>

text \<open>
  A browser in which every operation succeeds at once and nothing is ever found on a
  page beyond single elements; its external state is a counter the scenarios below use.
\<close>

definition ok :: "'a \<Rightarrow> ('w, 'a) extcall" where
  "ok x = (\<lambda>t w. (Inr x, w))"

definition quiet_env :: "nat env" where
  "quiet_env =
     \<lparr> new_page = ok (),
       goto = (\<lambda>p u. ok ()),
       page_url = (\<lambda>p. ok ''https://example.org/''),
       wait_for_selector = (\<lambda>p sel ms. ok ()),
       query_selector = (\<lambda>p sel. ok True),
       query_selector_all = (\<lambda>p sel. ok 0),
       click = (\<lambda>e. ok ()),
       fill = (\<lambda>e text. ok ()),
       get_attribute = (\<lambda>e name. ok None),
       keyboard_press = (\<lambda>p key. ok ()),
       keyboard_type = (\<lambda>p text delay. ok ()),
       text_count = (\<lambda>p text exact. ok 0),
       text_first_click = (\<lambda>p text exact. ok ()),
       reload = (\<lambda>p. ok ()),
       request_get = (\<lambda>p url. ok ()),
       response_body = (\<lambda>p url. ok []),
       mkdir_parents = (\<lambda>path. ok ()),
       write_bytes = (\<lambda>path content. ok ()),
       page_close = (\<lambda>p. ok ()),
       b64decode = (\<lambda>encoded. Inr encoded),
       elapsed = (\<lambda>w. 0) \<rparr>"

definition initial_state :: "nat st" where
  "initial_state = \<lparr> clock = 0, events = [], next_page = 0, ext = 0 \<rparr>"

definition open_pages :: "event list \<Rightarrow> page list" where
  \<comment> \<open>the pages opened and not closed, in the order they were opened\<close>
  "open_pages evs =
     filter (\<lambda>p. PageClosed p \<notin> set evs)
       (concat (map (\<lambda>ev. case ev of PageOpened p \<Rightarrow> [p] | _ \<Rightarrow> []) evs))"

definition login_env :: "nat env" where
  \<comment> \<open>the session is not authenticated: every navigation ends on a login page\<close>
  "login_env = quiet_env \<lparr> page_url := (\<lambda>p. ok ''https://accounts.x.ai/login'') \<rparr>"

lemmas io_defs =
  ret_def raise_def bnd_def try_except_def call_def pure_call_def emit_def time_now_def
  sleep_def alloc_page_def deref_def page_query_selector_def page_query_selector_all_def
  elem_click_def elem_get_attribute_def path_write_bytes_def get_page_def
  wait_for_element_def close_page_def retry_or_break_def attempt_except_def ok_def

lemmas config_defs =
  GROK_URL_def SORA_STORYBOARD_URL_def SORA_DRAFTS_URL_def DEFAULT_TIMEOUT_MS_def
  SORA_TIMEOUT_MS_def RETRY_ATTEMPTS_def RETRY_DELAY_S_def SORA_RETRY_DELAY_S_def
  SCREENSHOT_POLL_INTERVAL_S_def SORA_DRAFT_POLL_INTERVAL_S_def

lemma upt_attempts: "[1..<RETRY_ATTEMPTS + 1] = [1, 2, 3]"
  by (simp add: RETRY_ATTEMPTS_def upt_rec)

lemma str_nat_attempts: "str_nat RETRY_ATTEMPTS = ''3''"
  by (simp add: RETRY_ATTEMPTS_def str_nat.simps char_of_def bit_iff_odd)

lemma grok_login_run:
  "generate_grok_image login_env ''a red fox'' ''out/fox.png'' ''1:1'' initial_state =
     (Inr (failure_result ''Redirected to login. Log in to X/Grok first (SMI_HEADLESS=false)''),
      \<lparr> clock = 29000,
        events = [PageOpened 0, PageClosed 0, PageOpened 1, PageClosed 1, PageOpened 2],
        next_page = 3, ext = 0 \<rparr>)"
  unfolding generate_grok_image_def upt_attempts
  by (simp add: grok_attempt_def grok_try_def
        login_env_def quiet_env_def initial_state_def io_defs config_defs)
definition is_create_click :: "event \<Rightarrow> bool" where
  \<comment> \<open>a click on the element found by one of the two selectors of the Create button\<close>
  "is_create_click ev =
     (case ev of
        Clicked (Elem p sel i) \<Rightarrow> sel = create_sel \<or> sel = create_aria_sel
      | _ \<Rightarrow> False)"

definition create_clicks :: "event list \<Rightarrow> nat" where
  "create_clicks evs = length (filter is_create_click evs)"

definition flaky_goto_env :: "nat env" where
  \<comment> \<open>the external state counts the navigations; the third one times out.  One scene card
      and one draft are listed; a new draft is listed after the sixth navigation.\<close>
  "flaky_goto_env =
     quiet_env
       \<lparr> goto := (\<lambda>p u t w.
            (if w = 2 then Inl (PyExn TimeoutError ''Timeout 120000ms exceeded'') else Inr (), Suc w)),
         query_selector_all := (\<lambda>p sel. ok 1),
         get_attribute := (\<lambda>e name t w.
            (Inr (Some (if name = ''src'' then ''https://cdn.example.org/v.mp4''
                        else if w < 6 then ''/d/gen_old'' else ''/d/gen_new'')), w)) \<rparr>"
section \<open>Reasoning about the workflows\<close>

subsection \<open>Computations that cannot raise, and what a computation can return\<close>

definition no_raise :: "('w, 'a) io \<Rightarrow> bool" where
  "no_raise m = (\<forall>s. \<exists>x s'. m s = (Inr x, s'))"

definition returns_only :: "('w, 'a) io \<Rightarrow> ('a \<Rightarrow> bool) \<Rightarrow> bool" where
  "returns_only m P = (\<forall>s x s'. m s = (Inr x, s') \<longrightarrow> P x)"

lemma no_raise_ret: "no_raise (ret x)"
  by (simp add: no_raise_def ret_def)

lemma no_raise_sleep: "no_raise (sleep ms)"
  by (simp add: no_raise_def sleep_def)

lemma no_raise_bnd:
  assumes "no_raise m" and "\<And>x. no_raise (f x)"
  shows "no_raise (bnd m f)"
  unfolding no_raise_def
proof
  fix s
  from assms(1) obtain x s1 where "m s = (Inr x, s1)"
    unfolding no_raise_def by blast
  moreover from assms(2) [of x] obtain y s2 where "f x s1 = (Inr y, s2)"
    unfolding no_raise_def by blast
  ultimately show "\<exists>y s'. bnd m f s = (Inr y, s')"
    by (simp add: bnd_def)
qed

lemma no_raise_try_except:
  assumes "\<And>e. no_raise (h e)"
  shows "no_raise (try_except m h)"
  unfolding no_raise_def
proof
  fix s
  obtain r s1 where ms: "m s = (r, s1)" by (cases "m s")
  show "\<exists>x s'. try_except m h s = (Inr x, s')"
  proof (cases r)
    case (Inr x)
    with ms show ?thesis by (simp add: try_except_def)
  next
    case (Inl e)
    from assms [of e] obtain x s2 where "h e s1 = (Inr x, s2)"
      unfolding no_raise_def by blast
    with Inl ms show ?thesis by (simp add: try_except_def)
  qed
qed

lemma no_raise_close_page: "no_raise (close_page env page)"
  unfolding close_page_def by (intro no_raise_try_except no_raise_ret)

lemma no_raise_retry_or_break: "no_raise (retry_or_break env page attempt delay_s msg)"
  unfolding retry_or_break_def
  by (auto intro!: no_raise_bnd no_raise_close_page no_raise_sleep no_raise_ret)

lemma no_raise_attempt_except: "no_raise (attempt_except env page attempt delay_s e)"
  unfolding attempt_except_def
  by (auto intro!: no_raise_bnd no_raise_close_page no_raise_sleep no_raise_ret
           split: option.splits)

lemma returns_only_ret: "P x \<Longrightarrow> returns_only (ret x) P"
  by (simp add: returns_only_def ret_def)

lemma returns_only_raise: "returns_only (raise e) P"
  by (simp add: returns_only_def raise_def)

lemma returns_only_bnd:
  assumes "\<And>x. returns_only (f x) P"
  shows "returns_only (bnd m f) P"
  unfolding returns_only_def
proof (intro allI impI)
  fix s y s'
  assume run: "bnd m f s = (Inr y, s')"
  obtain r s1 where ms: "m s = (r, s1)" by (cases "m s")
  with run obtain x where "r = Inr x" and "f x s1 = (Inr y, s')"
    by (cases r) (simp_all add: bnd_def)
  with assms [of x] show "P y" by (auto simp: returns_only_def)
qed

lemma returns_only_try_except:
  assumes "returns_only m P" and "\<And>e. returns_only (h e) P"
  shows "returns_only (try_except m h) P"
  unfolding returns_only_def
proof (intro allI impI)
  fix s y s'
  assume run: "try_except m h s = (Inr y, s')"
  obtain r s1 where ms: "m s = (r, s1)" by (cases "m s")
  show "P y"
  proof (cases r)
    case (Inr x)
    with run ms assms(1) show ?thesis by (auto simp: try_except_def returns_only_def)
  next
    case (Inl e)
    with run ms assms(2) [of e] show ?thesis by (auto simp: try_except_def returns_only_def)
  qed
qed

lemma returns_onlyD: "returns_only m P \<Longrightarrow> m s = (Inr x, s') \<Longrightarrow> P x"
  by (auto simp: returns_only_def)

subsection \<open>The result dict\<close>

definition well_formed_result :: "pydict \<Rightarrow> bool" where
  "well_formed_result r =
     (\<exists>ok p t.
        map_of r ''success'' = Some (PyBool ok) \<and>
        map_of r ''path'' = Some (PyStr p) \<and>
        map_of r ''generation_time_ms'' = Some (PyInt t) \<and>
        (\<not> ok \<longrightarrow> p = [] \<and> (\<exists>e. map_of r ''error'' = Some (PyStr e))))"

definition exit_ok :: "string \<Rightarrow> loop_exit \<Rightarrow> bool" where
  \<comment> \<open>the only dict an iteration returns is the success dict for the output path\<close>
  "exit_ok output_path x =
     (case x of Return r \<Rightarrow> (\<exists>t. r = success_result output_path t) | _ \<Rightarrow> True)"

lemma well_formed_success: "well_formed_result (success_result output_path t)"
  unfolding well_formed_result_def success_result_def
  by (intro exI [of _ True] exI [of _ output_path] exI [of _ t]) simp

lemma well_formed_failure: "well_formed_result (failure_result e)"
  unfolding well_formed_result_def failure_result_def
  by (intro exI [of _ False] exI [of _ "[]"] exI [of _ 0]) simp

lemma exit_ok_simps:
  "exit_ok output_path (Return (success_result output_path t))"
  "exit_ok output_path (Next e)"
  "exit_ok output_path (Break e)"
  by (auto simp: exit_ok_def)

lemma returns_only_bnd_with:
  assumes "returns_only m Q" and "\<And>x. Q x \<Longrightarrow> returns_only (f x) P"
  shows "returns_only (bnd m f) P"
  unfolding returns_only_def
proof (intro allI impI)
  fix s y s'
  assume run: "bnd m f s = (Inr y, s')"
  obtain r s1 where ms: "m s = (r, s1)" by (cases "m s")
  with run obtain x where rx: "r = Inr x" and fx: "f x s1 = (Inr y, s')"
    by (cases r) (simp_all add: bnd_def)
  from assms(1) ms rx have "Q x" by (auto simp: returns_only_def)
  from assms(2) [OF this] fx show "P y" by (auto simp: returns_only_def)
qed

lemma returns_only_retry_or_break:
  "P (Next msg) \<Longrightarrow> P (Break msg) \<Longrightarrow> returns_only (retry_or_break env page attempt delay_s msg) P"
  unfolding retry_or_break_def
  by (auto intro!: returns_only_bnd returns_only_ret)

lemma returns_only_attempt_except:
  "(\<And>msg. P (Next msg)) \<Longrightarrow> returns_only (attempt_except env page attempt delay_s e) P"
  unfolding attempt_except_def
  by (auto intro!: returns_only_bnd returns_only_ret)

lemma returns_only_end_attempt:
  "returns_only
     (bnd (retry_or_break env page attempt delay_s msg) (\<lambda>x. ret (Inl x)))
     (\<lambda>p. case p of Inl x \<Rightarrow> exit_ok output_path x | Inr v \<Rightarrow> True)"
proof (rule returns_only_bnd_with)
  show "returns_only (retry_or_break env page attempt delay_s msg) (exit_ok output_path)"
    by (rule returns_only_retry_or_break) (simp_all add: exit_ok_simps)
  show "returns_only (ret (Inl x))
          (\<lambda>p. case p of Inl x \<Rightarrow> exit_ok output_path x | Inr v \<Rightarrow> True)"
    if "exit_ok output_path x" for x
    using that by (simp add: returns_only_def ret_def)
qed

lemma grok_try_exits:
  "returns_only (grok_try env prompt output_path attempt page start_time) (exit_ok output_path)"
  unfolding grok_try_def grok_save_def
  by (auto intro!: returns_only_bnd returns_only_ret returns_only_retry_or_break
           simp: exit_ok_simps split: option.splits)

lemma sora_download_exits:
  "returns_only (sora_download env output_path page start_time href) (exit_ok output_path)"
  unfolding sora_download_def
  by (auto intro!: returns_only_bnd returns_only_ret simp: exit_ok_simps split: option.splits)

lemma sora_await_new_entry_exits:
  "returns_only (sora_await_new_entry env output_path page start_time existing) (exit_ok output_path)"
  unfolding sora_await_new_entry_def
  by (auto intro!: returns_only_bnd returns_only_ret sora_download_exits simp: exit_ok_simps)

lemma sora_prepare_exits:
  "returns_only (sora_prepare env prompt duration attempt page)
     (\<lambda>p. case p of Inl x \<Rightarrow> exit_ok output_path x | Inr existing \<Rightarrow> True)"
  unfolding sora_prepare_def
  by (auto intro!: returns_only_end_attempt returns_only_bnd returns_only_ret)

lemma sora_commit_exits:
  "returns_only (sora_commit env page attempt)
     (\<lambda>c. case c of Inl x \<Rightarrow> exit_ok output_path x | Inr u \<Rightarrow> True)"
  unfolding sora_commit_def
  by (auto intro!: returns_only_end_attempt returns_only_bnd returns_only_ret
           split: option.splits)

lemma sora_try_exits:
  "returns_only (sora_try env prompt output_path duration attempt page start_time)
     (exit_ok output_path)"
  unfolding sora_try_def returns_only_def
proof (intro allI impI)
  fix s y s'
  assume run: "bnd (sora_prepare env prompt duration attempt page)
                 (\<lambda>p. case p of
                        Inl x \<Rightarrow> ret x
                      | Inr existing_drafts \<Rightarrow>
                          bnd (sora_commit env page attempt)
                            (\<lambda>c. case c of
                                   Inl x \<Rightarrow> ret x
                                 | Inr u \<Rightarrow> sora_await_new_entry env output_path page start_time
                                             existing_drafts)) s = (Inr y, s')"
  obtain r1 s1 where p1: "sora_prepare env prompt duration attempt page s = (r1, s1)"
    by (cases "sora_prepare env prompt duration attempt page s")
  from run p1 obtain p where r1: "r1 = Inr p" by (cases r1) (simp_all add: bnd_def)
  show "exit_ok output_path y"
  proof (cases p)
    case (Inl x)
    with run p1 r1 have "y = x" by (simp add: bnd_def ret_def)
    moreover from returns_onlyD [OF sora_prepare_exits [of env prompt duration attempt page output_path]]
      p1 r1 Inl have "exit_ok output_path x" by fastforce
    ultimately show ?thesis by simp
  next
    case (Inr existing)
    obtain r2 s2 where p2: "sora_commit env page attempt s1 = (r2, s2)"
      by (cases "sora_commit env page attempt s1")
    from run p1 r1 Inr p2 obtain c where r2: "r2 = Inr c"
      by (cases r2) (simp_all add: bnd_def)
    show ?thesis
    proof (cases c)
      case (Inl x)
      with run p1 r1 Inr p2 r2 have "y = x" by (simp add: bnd_def ret_def)
      moreover from returns_onlyD [OF sora_commit_exits [of env page attempt output_path]]
        p2 r2 Inl have "exit_ok output_path x" by fastforce
      ultimately show ?thesis by simp
    next
      case c: (Inr u)
      with run p1 r1 Inr p2 r2
      have "sora_await_new_entry env output_path page start_time existing s2 = (Inr y, s')"
        by (simp add: bnd_def)
      then show ?thesis by (rule returns_onlyD [OF sora_await_new_entry_exits])
    qed
  qed
qed

lemma attempt_with_handler:
  assumes body: "\<And>page start. returns_only (body page start) (exit_ok output_path)"
  shows "\<exists>x s'. (case get_page env url s0 of
                    (Inl e, s1) \<Rightarrow> attempt_except env None attempt delay_s e s1
                  | (Inr page, s1) \<Rightarrow>
                      try_except (body page (clock s0))
                        (attempt_except env (Some page) attempt delay_s) s1) = (Inr x, s')
                 \<and> exit_ok output_path x"
proof -
  have handler: "\<exists>x s'. attempt_except env pg attempt delay_s e s = (Inr x, s') \<and> exit_ok output_path x"
    for pg e and s :: "'a st"
  proof -
    from no_raise_attempt_except [of env pg attempt delay_s e]
    obtain x s' where run: "attempt_except env pg attempt delay_s e s = (Inr x, s')"
      unfolding no_raise_def by blast
    have "returns_only (attempt_except env pg attempt delay_s e) (exit_ok output_path)"
      by (rule returns_only_attempt_except) (simp add: exit_ok_simps)
    from returns_onlyD [OF this run] run show ?thesis by blast
  qed
  obtain r s1 where gp: "get_page env url s0 = (r, s1)" by (cases "get_page env url s0")
  show ?thesis
  proof (cases r)
    case (Inl e)
    with gp handler [of None e s1] show ?thesis by simp
  next
    case (Inr page)
    obtain r2 s2 where b: "body page (clock s0) s1 = (r2, s2)"
      by (cases "body page (clock s0) s1")
    show ?thesis
    proof (cases r2)
      case (Inl e)
      with gp Inr b handler [of "Some page" e s2] show ?thesis
        by (simp add: try_except_def)
    next
      case r2: (Inr x)
      with b body [of page "clock s0"] have "exit_ok output_path x"
        by (auto dest: returns_onlyD)
      with gp Inr b r2 show ?thesis by (simp add: try_except_def)
    qed
  qed
qed

lemma grok_attempt_exits:
  "\<exists>x s'. grok_attempt env prompt output_path attempt s = (Inr x, s') \<and> exit_ok output_path x"
  unfolding grok_attempt_def
  by (rule attempt_with_handler) (rule grok_try_exits)

lemma sora_attempt_exits:
  "\<exists>x s'. sora_attempt env prompt output_path duration attempt s = (Inr x, s')
          \<and> exit_ok output_path x"
  unfolding sora_attempt_def
  by (rule attempt_with_handler) (rule sora_try_exits)

lemma grok_loop_result:
  "\<exists>r s'. grok_loop env prompt output_path attempts last_error s = (Inr r, s')
          \<and> well_formed_result r"
proof (induction attempts arbitrary: last_error s)
  case Nil
  then show ?case by (simp add: ret_def well_formed_failure)
next
  case (Cons attempt rest)
  from grok_attempt_exits [of env prompt output_path attempt s]
  obtain x s1 where run: "grok_attempt env prompt output_path attempt s = (Inr x, s1)"
    and ok: "exit_ok output_path x" by blast
  show ?case
  proof (cases x)
    case (Return r)
    with run ok show ?thesis
      by (auto simp: bnd_def ret_def exit_ok_def well_formed_success)
  next
    case (Break e)
    with run show ?thesis by (simp add: bnd_def ret_def well_formed_failure)
  next
    case (Next e)
    with run Cons.IH [of e s1] show ?thesis by (simp add: bnd_def)
  qed
qed

lemma sora_loop_result:
  "\<exists>r s'. sora_loop env prompt output_path duration attempts last_error s = (Inr r, s')
          \<and> well_formed_result r"
proof (induction attempts arbitrary: last_error s)
  case Nil
  then show ?case by (simp add: ret_def well_formed_failure)
next
  case (Cons attempt rest)
  from sora_attempt_exits [of env prompt output_path duration attempt s]
  obtain x s1 where run: "sora_attempt env prompt output_path duration attempt s = (Inr x, s1)"
    and ok: "exit_ok output_path x" by blast
  show ?case
  proof (cases x)
    case (Return r)
    with run ok show ?thesis
      by (auto simp: bnd_def ret_def exit_ok_def well_formed_success)
  next
    case (Break e)
    with run show ?thesis by (simp add: bnd_def ret_def well_formed_failure)
  next
    case (Next e)
    with run Cons.IH [of e s1] show ?thesis by (simp add: bnd_def)
  qed
qed
section \<open>No exception leaves a workflow\<close>

text \<open>
  C7.  For every environment, prompt, output path and starting state, both
  \<open>generate_grok_image\<close> and \<open>generate_sora_video\<close> return normally, and what they return
  is a dict with the keys \<open>success\<close>, \<open>path\<close> and \<open>generation_time_ms\<close>; when \<open>success\<close> is
  false the path is the empty string and the key \<open>error\<close> is present.
\<close>

theorem workflows_return_well_formed_results:
  "(\<exists>r s'. generate_grok_image env prompt output_path aspect_ratio s = (Inr r, s')
            \<and> well_formed_result r) \<and>
   (\<exists>r s'. generate_sora_video env prompt output_path duration aspect_ratio s = (Inr r, s')
            \<and> well_formed_result r)"
  unfolding generate_grok_image_def generate_sora_video_def
  by (intro conjI grok_loop_result sora_loop_result)

theorem workflows_return_well_formed_results_witness:
  "\<exists>r s'. generate_grok_image login_env ''a red fox'' ''out/fox.png'' ''1:1'' initial_state = (Inr r, s')
          \<and> well_formed_result r
          \<and> map_of r ''success'' = Some (PyBool False)
          \<and> map_of r ''path'' = Some (PyStr [])
          \<and> map_of r ''error'' =
              Some (PyStr (''Failed after 3 attempts: Redirected to login. '' @
                           ''Log in to X/Grok first (SMI_HEADLESS=false)''))"
proof -
  from workflows_return_well_formed_results
    [of login_env "''a red fox''" "''out/fox.png''" "''1:1''" initial_state]
  obtain r s' where
    run: "generate_grok_image login_env ''a red fox'' ''out/fox.png'' ''1:1'' initial_state = (Inr r, s')"
    and wf: "well_formed_result r"
    by blast
  from run have "r = failure_result ''Redirected to login. Log in to X/Grok first (SMI_HEADLESS=false)''"
    by (simp add: grok_login_run)
  then have "map_of r ''success'' = Some (PyBool False)"
    and "map_of r ''path'' = Some (PyStr [])"
    and "map_of r ''error'' =
           Some (PyStr (''Failed after 3 attempts: Redirected to login. '' @
                        ''Log in to X/Grok first (SMI_HEADLESS=false)''))"
    by (simp_all add: failure_result_def str_nat_attempts)
  with run wf show ?thesis by blast
qed

section \<open>Pages left open\<close>

text \<open>
  C3.  The claim that no path returns while a page the attempt opened is still open fails
  on the code: the blocks that end an attempt close the page only under
  \<open>attempt < RETRY_ATTEMPTS\<close>, and the \<open>break\<close> of the last attempt leaves it open.  With
  a session that is not logged in, \<open>generate_grok_image\<close> opens three pages, closes the
  first two and returns its failure result with the third still open.
\<close>

theorem grok_returns_with_page_open:
  "fst (generate_grok_image login_env ''a red fox'' ''out/fox.png'' ''1:1'' initial_state) =
     Inr (failure_result ''Redirected to login. Log in to X/Grok first (SMI_HEADLESS=false)'') \<and>
   open_pages (events (snd
     (generate_grok_image login_env ''a red fox'' ''out/fox.png'' ''1:1'' initial_state))) = [2]"
  by (simp add: grok_login_run open_pages_def)

section \<open>The Create click and the retry loop\<close>

lemmas sora_defs =
  sora_attempt_def sora_try_def sora_prepare_def sora_commit_def
  sora_snapshot_def sora_await_new_entry_def sora_download_def set_duration_def
  wait_for_scene_cards_def scene_cards_step_def get_draft_hrefs_def poll_drafts_for_new_def
  new_hrefs_def button_has_text_def master_sel_def create_sel_def create_aria_sel_def
  or_empty_def success_result_def str_int_def
  scene_cards_loop.simps poll_drafts_loop.simps

lemma flaky_goto_run:
  "fst (generate_sora_video flaky_goto_env ''a red fox'' ''out/fox.mp4'' 25 ''9:16'' initial_state) =
     Inr [(''success'', PyBool True), (''path'', PyStr ''out/fox.mp4''),
          (''generation_time_ms'', PyInt 26000)] \<and>
   filter is_create_click (events (snd
     (generate_sora_video flaky_goto_env ''a red fox'' ''out/fox.mp4'' 25 ''9:16'' initial_state))) =
     [Clicked (Elem 0 create_sel 0), Clicked (Elem 2 create_sel 0)]"
  unfolding generate_sora_video_def upt_attempts
  by (simp add: sora_defs flaky_goto_env_def quiet_env_def initial_state_def io_defs config_defs
        is_create_click_def)

text \<open>
  C1.  The claim that Create is clicked at most once per call fails on the code, against
  the module's own docstring (``ONCE ONLY --- never retry after this point''): an
  exception raised after the click is caught by \<open>except Exception\<close>, which goes on to the
  next attempt, and that attempt clicks Create again.  Here the navigation to the drafts
  page times out once, right after the first click: the call clicks Create on page 0 and
  again on page 2, and reports success.
\<close>

theorem create_clicked_twice_in_one_call:
  "create_clicks (events (snd
     (generate_sora_video flaky_goto_env ''a red fox'' ''out/fox.mp4'' 25 ''9:16'' initial_state))) = 2"
  by (simp add: create_clicks_def flaky_goto_run)

subsection \<open>The events a computation adds\<close>

definition adds_only :: "(event \<Rightarrow> bool) \<Rightarrow> ('w, 'a) io \<Rightarrow> bool" where
  \<comment> \<open>the computation only appends events, and each of them satisfies \<open>P\<close>\<close>
  "adds_only P m = (\<forall>s. \<exists>new. events (snd (m s)) = events s @ new \<and> list_all P new)"

lemma adds_onlyD:
  assumes "adds_only P m" and "m s = (r, s')"
  obtains new where "events s' = events s @ new" and "list_all P new"
  using assms unfolding adds_only_def by (metis snd_conv)

lemma adds_only_ret: "adds_only P (ret x)"
  by (simp add: adds_only_def ret_def)

lemma adds_only_raise: "adds_only P (raise e)"
  by (simp add: adds_only_def raise_def)

lemma adds_only_pure_call: "adds_only P (pure_call r)"
  by (simp add: adds_only_def pure_call_def)

lemma adds_only_call: "adds_only P (call env f)"
  by (simp add: adds_only_def call_def split: prod.splits)

lemma adds_only_sleep: "adds_only P (sleep ms)"
  by (simp add: adds_only_def sleep_def)

lemma adds_only_time_now: "adds_only P time_now"
  by (simp add: adds_only_def time_now_def)

lemma adds_only_emit: "P ev \<Longrightarrow> adds_only P (emit ev)"
  by (simp add: adds_only_def emit_def)

lemma adds_only_alloc_page: "(\<And>p. P (PageOpened p)) \<Longrightarrow> adds_only P alloc_page"
  by (simp add: adds_only_def alloc_page_def)

lemma adds_only_bnd:
  assumes "adds_only P m" and "\<And>x. adds_only P (f x)"
  shows "adds_only P (bnd m f)"
  unfolding adds_only_def
proof
  fix s
  obtain r s1 where ms: "m s = (r, s1)" by (cases "m s")
  from adds_onlyD [OF assms(1) ms] obtain n1
    where n1: "events s1 = events s @ n1" "list_all P n1" by blast
  show "\<exists>new. events (snd (bnd m f s)) = events s @ new \<and> list_all P new"
  proof (cases r)
    case (Inl e)
    with ms n1 show ?thesis by (auto simp: bnd_def)
  next
    case (Inr x)
    obtain r2 s2 where fx: "f x s1 = (r2, s2)" by (cases "f x s1")
    from adds_onlyD [OF assms(2) [of x] fx] obtain n2
      where n2: "events s2 = events s1 @ n2" "list_all P n2" by blast
    from n1 n2 have "events s2 = events s @ (n1 @ n2)" "list_all P (n1 @ n2)" by simp_all
    with Inr ms fx show ?thesis by (auto simp: bnd_def)
  qed
qed

lemma adds_only_bnd_with:
  assumes "adds_only P m" and "returns_only m Q" and "\<And>x. Q x \<Longrightarrow> adds_only P (f x)"
  shows "adds_only P (bnd m f)"
  unfolding adds_only_def
proof
  fix s
  obtain r s1 where ms: "m s = (r, s1)" by (cases "m s")
  from adds_onlyD [OF assms(1) ms] obtain n1
    where n1: "events s1 = events s @ n1" "list_all P n1" by blast
  show "\<exists>new. events (snd (bnd m f s)) = events s @ new \<and> list_all P new"
  proof (cases r)
    case (Inl e)
    with ms n1 show ?thesis by (auto simp: bnd_def)
  next
    case (Inr x)
    with ms assms(2) have "Q x" by (auto dest: returns_onlyD)
    note fx_only = assms(3) [OF this]
    obtain r2 s2 where fx: "f x s1 = (r2, s2)" by (cases "f x s1")
    from adds_onlyD [OF fx_only fx] obtain n2
      where n2: "events s2 = events s1 @ n2" "list_all P n2" by blast
    from n1 n2 have "events s2 = events s @ (n1 @ n2)" "list_all P (n1 @ n2)" by simp_all
    with Inr ms fx show ?thesis by (auto simp: bnd_def)
  qed
qed

lemma adds_only_try_except:
  assumes "adds_only P m" and "\<And>e. adds_only P (h e)"
  shows "adds_only P (try_except m h)"
  unfolding adds_only_def
proof
  fix s
  obtain r s1 where ms: "m s = (r, s1)" by (cases "m s")
  from adds_onlyD [OF assms(1) ms] obtain n1
    where n1: "events s1 = events s @ n1" "list_all P n1" by blast
  show "\<exists>new. events (snd (try_except m h s)) = events s @ new \<and> list_all P new"
  proof (cases r)
    case (Inr x)
    with ms n1 show ?thesis by (auto simp: try_except_def)
  next
    case (Inl e)
    obtain r2 s2 where he: "h e s1 = (r2, s2)" by (cases "h e s1")
    from adds_onlyD [OF assms(2) [of e] he] obtain n2
      where n2: "events s2 = events s1 @ n2" "list_all P n2" by blast
    from n1 n2 have "events s2 = events s @ (n1 @ n2)" "list_all P (n1 @ n2)" by simp_all
    with Inl ms he show ?thesis by (auto simp: try_except_def)
  qed
qed

lemmas adds_only_intros =
  adds_only_bnd adds_only_try_except adds_only_ret adds_only_raise adds_only_pure_call
  adds_only_call adds_only_sleep adds_only_time_now

lemma adds_only_elem_get_attribute:
  "(\<And>v. P (AttrRead e name v)) \<Longrightarrow> adds_only P (elem_get_attribute env e name)"
  unfolding elem_get_attribute_def by (intro adds_only_intros adds_only_emit)

lemma adds_only_page_query_selector: "adds_only P (page_query_selector env page sel)"
  unfolding page_query_selector_def by (intro adds_only_intros)

lemma adds_only_page_query_selector_all: "adds_only P (page_query_selector_all env page sel)"
  unfolding page_query_selector_all_def by (intro adds_only_intros)

lemma adds_only_close_page: "P (PageClosed page) \<Longrightarrow> adds_only P (close_page env page)"
  unfolding close_page_def by (intro adds_only_intros adds_only_emit)

lemma adds_only_collect_hrefs:
  assumes "\<And>e v. P (AttrRead e ''href'' v)"
  shows "adds_only P (collect_hrefs env links hrefs)"
  by (induction links arbitrary: hrefs)
     (auto intro!: adds_only_intros adds_only_elem_get_attribute assms)

lemma adds_only_get_draft_hrefs:
  assumes "\<And>e v. P (AttrRead e ''href'' v)"
  shows "adds_only P (get_draft_hrefs env page)"
  unfolding get_draft_hrefs_def
  by (intro adds_only_bnd adds_only_page_query_selector_all adds_only_collect_hrefs assms)

lemma adds_only_poll_drafts_loop:
  assumes "\<And>e v. P (AttrRead e ''href'' v)"
  shows "\<exists>new. events (snd (poll_drafts_loop env page existing deadline s)) = events s @ new
               \<and> list_all P new"
proof (induction env page existing deadline s rule: poll_drafts_loop.induct)
  case (1 env page existing deadline s)
  show ?case
  proof (cases "clock s < deadline")
    case False
    then show ?thesis by (simp add: poll_drafts_loop.simps)
  next
    case True
    obtain r1 s1 where g: "get_draft_hrefs env page s = (r1, s1)"
      by (cases "get_draft_hrefs env page s")
    have gd: "adds_only P (get_draft_hrefs env page)"
      by (rule adds_only_get_draft_hrefs) (rule assms)
    from adds_onlyD [OF gd g] obtain n1
      where n1: "events s1 = events s @ n1" "list_all P n1" by blast
    show ?thesis
    proof (cases r1)
      case (Inl e)
      with True g n1 show ?thesis by (simp add: poll_drafts_loop.simps)
    next
      case (Inr current_hrefs)
      show ?thesis
      proof (cases "new_hrefs current_hrefs existing")
        case (Cons h hs)
        with True g Inr n1 show ?thesis by (simp add: poll_drafts_loop.simps)
      next
        case Nil
        obtain r2 s2 where rl: "call env (reload env page) s1 = (r2, s2)"
          by (cases "call env (reload env page) s1")
        have cl: "adds_only P (call env (reload env page))" by (rule adds_only_call)
        from adds_onlyD [OF cl rl] obtain n2
          where n2: "events s2 = events s1 @ n2" "list_all P n2" by blast
        show ?thesis
        proof (cases r2)
          case (Inl e)
          with True g Inr Nil rl n1 n2 show ?thesis by (simp add: poll_drafts_loop.simps)
        next
          case r2: (Inr u)
          let ?s3 = "snd (sleep (SORA_DRAFT_POLL_INTERVAL_S * 1000) s2)"
          from "1.IH" [OF True g [symmetric] Inr Nil rl [symmetric] r2]
          obtain n3 where n3: "events (snd (poll_drafts_loop env page existing deadline ?s3)) =
                                events ?s3 @ n3" "list_all P n3"
            by blast
          have "events ?s3 = events s2" by (simp add: sleep_def)
          with n1 n2 n3
          have "events (snd (poll_drafts_loop env page existing deadline ?s3)) =
                  events s @ (n1 @ n2 @ n3)" "list_all P (n1 @ n2 @ n3)"
            by simp_all
          moreover have "poll_drafts_loop env page existing deadline s =
                           poll_drafts_loop env page existing deadline ?s3"
            using True g Inr Nil rl r2 by (subst poll_drafts_loop.simps) simp
          ultimately show ?thesis by metis
        qed
      qed
    qed
  qed
qed

lemma adds_only_poll_drafts_for_new:
  assumes "\<And>e v. P (AttrRead e ''href'' v)"
  shows "adds_only P (poll_drafts_for_new env page existing timeout_ms)"
  unfolding adds_only_def poll_drafts_for_new_def
proof
  fix s :: "'a st"
  have "\<exists>new. events (snd (poll_drafts_loop env page existing (clock s + timeout_ms) s)) =
                events s @ new \<and> list_all P new"
    by (rule adds_only_poll_drafts_loop) (rule assms)
  then show "\<exists>new. events (snd (bnd time_now
                 (\<lambda>t. poll_drafts_loop env page existing (t + timeout_ms)) s)) =
               events s @ new \<and> list_all P new"
    by (simp add: bnd_def time_now_def)
qed

lemma poll_drafts_loop_timeout:
  "poll_drafts_loop env page existing deadline s = (Inr None, s') \<Longrightarrow> deadline \<le> clock s'"
proof (induction env page existing deadline s rule: poll_drafts_loop.induct)
  case (1 env page existing deadline s)
  show ?case
  proof (cases "clock s < deadline")
    case False
    with "1.prems" show ?thesis by (simp add: poll_drafts_loop.simps)
  next
    case True
    obtain r1 s1 where g: "get_draft_hrefs env page s = (r1, s1)"
      by (cases "get_draft_hrefs env page s")
    from "1.prems" True g obtain current_hrefs where r1: "r1 = Inr current_hrefs"
      by (cases r1) (simp_all add: poll_drafts_loop.simps)
    from "1.prems" True g r1 have nil: "new_hrefs current_hrefs existing = []"
      by (cases "new_hrefs current_hrefs existing") (simp_all add: poll_drafts_loop.simps)
    obtain r2 s2 where rl: "call env (reload env page) s1 = (r2, s2)"
      by (cases "call env (reload env page) s1")
    from "1.prems" True g r1 nil rl obtain u where r2: "r2 = Inr u"
      by (cases r2) (simp_all add: poll_drafts_loop.simps)
    let ?s3 = "snd (sleep (SORA_DRAFT_POLL_INTERVAL_S * 1000) s2)"
    have "poll_drafts_loop env page existing deadline ?s3 = (Inr None, s')"
      using "1.prems" True g r1 nil rl r2 by (subst (asm) poll_drafts_loop.simps) simp
    with "1.IH" [OF True g [symmetric] r1 nil rl [symmetric] r2]
    show ?thesis by simp
  qed
qed
section \<open>A timeout after the commit ends the call\<close>

lemma no_create_click_during_poll:
  assumes "poll_drafts_for_new env page existing timeout_ms s = (r, s')"
  shows "create_clicks (events s') = create_clicks (events s)"
proof -
  have "adds_only (\<lambda>ev. \<not> is_create_click ev) (poll_drafts_for_new env page existing timeout_ms)"
    by (rule adds_only_poll_drafts_for_new) (simp add: is_create_click_def)
  from adds_onlyD [OF this assms] obtain new
    where "events s' = events s @ new" and "list_all (\<lambda>ev. \<not> is_create_click ev) new"
    by blast
  then show ?thesis by (simp add: create_clicks_def list_all_iff)
qed

lemma poll_drafts_for_new_timeout:
  assumes "poll_drafts_for_new env page existing timeout_ms s = (Inr None, s')"
  shows "clock s + timeout_ms \<le> clock s'"
  using assms poll_drafts_loop_timeout [of env page existing "clock s + timeout_ms" s s']
  by (simp add: poll_drafts_for_new_def bnd_def time_now_def)

lemma timed_out_error_text:
  "map_of (failure_result timed_out_error) ''error'' =
     Some (PyStr (''Failed after 3 attempts: Video generation timed out '' @ em_dash @
                  '' no new draft appeared'')) \<and>
   contains (''Failed after 3 attempts: Video generation timed out '' @ em_dash @
             '' no new draft appeared'') ''timed out''"
  by (simp add: failure_result_def str_nat_attempts timed_out_error_def em_dash_def)

text \<open>
  C2.  Take any attempt of the retry loop in which the storyboard page was opened, the
  steps up to the snapshot went through, Create was clicked (\<open>sora_commit\<close> returned
  normally), the navigation to the drafts page succeeded, and the poll of the drafts
  listing came back with \<open>None\<close>.  Then the call ends there: the result is the failure
  dict whose error text contains ``timed out'', the final state is the state at the end
  of the poll (no further attempt, no further action), Create was not clicked again
  after the commit, and the poll deadline had passed.
\<close>

theorem timeout_after_commit_is_terminal:
  assumes opened: "get_page env SORA_STORYBOARD_URL s0 = (Inr page, s1)"
    and prepared: "sora_prepare env prompt duration attempt page s1 = (Inr (Inr existing), s2)"
    and committed: "sora_commit env page attempt s2 = (Inr (Inr ()), s3)"
    and navigated: "call env (goto env page SORA_DRAFTS_URL) s3 = (Inr (), s4)"
    and timed_out: "poll_drafts_for_new env page existing SORA_TIMEOUT_MS (snd (sleep 3000 s4)) =
                      (Inr None, s5)"
  shows "sora_loop env prompt output_path duration (attempt # rest) last_error s0 =
           (Inr (failure_result timed_out_error), s5) \<and>
         map_of (failure_result timed_out_error) ''success'' = Some (PyBool False) \<and>
         (\<exists>err. map_of (failure_result timed_out_error) ''error'' = Some (PyStr err) \<and>
                contains err ''timed out'') \<and>
         create_clicks (events s5) = create_clicks (events s3) \<and>
         clock s4 + 3000 + SORA_TIMEOUT_MS \<le> clock s5"
proof (intro conjI)
  have await: "sora_await_new_entry env output_path page (clock s0) existing s3 =
                 (Inr (Break timed_out_error), s5)"
    using navigated timed_out
    by (simp add: sora_await_new_entry_def bnd_def ret_def or_empty_def sleep_def)
  have "sora_try env prompt output_path duration attempt page (clock s0) s1 =
          (Inr (Break timed_out_error), s5)"
    using prepared committed await by (simp add: sora_try_def bnd_def)
  then have "sora_attempt env prompt output_path duration attempt s0 =
               (Inr (Break timed_out_error), s5)"
    using opened by (simp add: sora_attempt_def try_except_def)
  then show "sora_loop env prompt output_path duration (attempt # rest) last_error s0 =
               (Inr (failure_result timed_out_error), s5)"
    by (simp add: bnd_def ret_def)
  show "map_of (failure_result timed_out_error) ''success'' = Some (PyBool False)"
    by (simp add: failure_result_def)
  show "\<exists>err. map_of (failure_result timed_out_error) ''error'' = Some (PyStr err) \<and>
              contains err ''timed out''"
    using timed_out_error_text by blast
  have "events s4 = events s3"
    using navigated by (auto simp: call_def split: prod.splits)
  moreover have "events (snd (sleep 3000 s4)) = events s4" by (simp add: sleep_def)
  ultimately show "create_clicks (events s5) = create_clicks (events s3)"
    using no_create_click_during_poll [OF timed_out] by simp
  show "clock s4 + 3000 + SORA_TIMEOUT_MS \<le> clock s5"
    using poll_drafts_for_new_timeout [OF timed_out] by (simp add: sleep_def)
qed

definition stalled_env :: "nat env" where
  \<comment> \<open>the scene cards appear at once, and the drafts page lists the same single draft
      for ever\<close>
  "stalled_env =
     quiet_env
       \<lparr> query_selector_all := (\<lambda>p sel. ok 1),
         get_attribute := (\<lambda>e name. ok (Some ''/d/gen_old'')) \<rparr>"

lemmas stalled_defs =
  sora_defs stalled_env_def quiet_env_def initial_state_def io_defs config_defs

theorem timeout_after_commit_is_terminal_witness:
  "fst (generate_sora_video stalled_env ''a red fox'' ''out/fox.mp4'' 25 ''9:16'' initial_state) =
     Inr (failure_result timed_out_error) \<and>
   create_clicks (events (snd
     (generate_sora_video stalled_env ''a red fox'' ''out/fox.mp4'' 25 ''9:16'' initial_state))) = 1 \<and>
   1800000 \<le> clock (snd
     (generate_sora_video stalled_env ''a red fox'' ''out/fox.mp4'' 25 ''9:16'' initial_state))"
proof -
  define s1 where "s1 = snd (get_page stalled_env SORA_STORYBOARD_URL initial_state)"
  define s2 where "s2 = snd (sora_prepare stalled_env ''a red fox'' 25 1 0 s1)"
  define s3 where "s3 = snd (sora_commit stalled_env 0 1 s2)"
  define s4 where "s4 = snd (call stalled_env (goto stalled_env 0 SORA_DRAFTS_URL) s3)"
  define s5 where "s5 = snd (poll_drafts_for_new stalled_env 0 {''/d/gen_old''} SORA_TIMEOUT_MS
                               (snd (sleep 3000 s4)))"
  have s1: "s1 = \<lparr> clock = 0, events = [PageOpened 0], next_page = 1, ext = 0 \<rparr>"
    unfolding s1_def by (simp add: stalled_defs)
  have opened: "get_page stalled_env SORA_STORYBOARD_URL initial_state = (Inr 0, s1)"
    unfolding s1 by (simp add: stalled_defs)
  have prepared: "sora_prepare stalled_env ''a red fox'' 25 1 0 s1 = (Inr (Inr {''/d/gen_old''}), s2)"
    unfolding s2_def s1 by (simp add: stalled_defs)
  have s2: "create_clicks (events s2) = 0 \<and> ext s2 = 0"
    unfolding s2_def s1 by (simp add: stalled_defs create_clicks_def is_create_click_def)
  have committed: "sora_commit stalled_env 0 1 s2 = (Inr (Inr ()), s3)"
    unfolding s3_def by (simp add: stalled_defs)
  have s3: "create_clicks (events s3) = 1"
    unfolding s3_def using s2
    by (simp add: stalled_defs create_clicks_def is_create_click_def)
  have navigated: "call stalled_env (goto stalled_env 0 SORA_DRAFTS_URL) s3 = (Inr (), s4)"
    unfolding s4_def by (simp add: stalled_defs)
  have s4: "snd (sleep 3000 s4) =
              s3 \<lparr> clock := clock s3 + 3000 \<rparr>"
    unfolding s4_def by (simp add: stalled_defs)
  have "fst (poll_drafts_for_new stalled_env 0 {''/d/gen_old''} SORA_TIMEOUT_MS
               (s3 \<lparr> clock := clock s3 + 3000 \<rparr>)) = Inr None"
    by (simp add: stalled_defs)
  then have timed_out:
    "poll_drafts_for_new stalled_env 0 {''/d/gen_old''} SORA_TIMEOUT_MS (snd (sleep 3000 s4)) =
       (Inr None, s5)"
    unfolding s5_def s4 by (metis prod.collapse)
  from timeout_after_commit_is_terminal
    [OF opened prepared committed navigated timed_out, of "''out/fox.mp4''" "[2, 3]" "[]"]
  have run: "sora_loop stalled_env ''a red fox'' ''out/fox.mp4'' 25 [1, 2, 3] [] initial_state =
               (Inr (failure_result timed_out_error), s5)"
    and clicks: "create_clicks (events s5) = create_clicks (events s3)"
    and late: "clock s4 + 3000 + SORA_TIMEOUT_MS \<le> clock s5"
    by blast+
  from late have "1800000 \<le> clock s5" by (simp add: SORA_TIMEOUT_MS_def)
  with run clicks s3 show ?thesis
    unfolding generate_sora_video_def upt_attempts by simp
qed

subsection \<open>What a computation returns, together with the events it adds\<close>

definition yields :: "('w, 'a) io \<Rightarrow> ('a \<Rightarrow> event list \<Rightarrow> bool) \<Rightarrow> bool" where
  "yields m Q = (\<forall>s x s'. m s = (Inr x, s') \<longrightarrow> (\<exists>new. events s' = events s @ new \<and> Q x new))"

lemma yieldsD:
  assumes "yields m Q" and "m s = (Inr x, s')"
  obtains new where "events s' = events s @ new" and "Q x new"
  using assms unfolding yields_def by blast

lemma yields_ret: "Q x [] \<Longrightarrow> yields (ret x) Q"
  by (simp add: yields_def ret_def)

lemma yields_raise: "yields (raise e) Q"
  by (simp add: yields_def raise_def)

lemma yields_if:
  "(c \<Longrightarrow> yields a Q) \<Longrightarrow> (\<not> c \<Longrightarrow> yields b Q) \<Longrightarrow> yields (if c then a else b) Q"
  by simp

lemma yields_bnd_with:
  assumes "yields m Q1" and "\<And>x. yields (f x) (Q2 x)"
    and "\<And>x n1 y n2. Q1 x n1 \<Longrightarrow> Q2 x y n2 \<Longrightarrow> Q y (n1 @ n2)"
  shows "yields (bnd m f) Q"
  unfolding yields_def
proof (intro allI impI)
  fix s y s'
  assume run: "bnd m f s = (Inr y, s')"
  obtain r s1 where ms: "m s = (r, s1)" by (cases "m s")
  with run obtain x where rx: "r = Inr x" and fx: "f x s1 = (Inr y, s')"
    by (cases r) (simp_all add: bnd_def)
  from yieldsD [OF assms(1)] ms rx obtain n1
    where n1: "events s1 = events s @ n1" "Q1 x n1" by blast
  from yieldsD [OF assms(2) fx] obtain n2
    where n2: "events s' = events s1 @ n2" "Q2 x y n2" by blast
  from n1 n2 assms(3) have "events s' = events s @ (n1 @ n2)" "Q y (n1 @ n2)" by simp_all
  then show "\<exists>new. events s' = events s @ new \<and> Q y new" by blast
qed

lemma yields_bnd:
  assumes "adds_only P m" and "\<And>x. yields (f x) Q"
    and "\<And>y n1 n2. list_all P n1 \<Longrightarrow> Q y n2 \<Longrightarrow> Q y (n1 @ n2)"
  shows "yields (bnd m f) Q"
proof (rule yields_bnd_with [where ?Q1.0 = "\<lambda>x n. list_all P n" and ?Q2.0 = "\<lambda>x. Q"])
  show "yields m (\<lambda>x n. list_all P n)"
    unfolding yields_def using adds_onlyD [OF assms(1)] by metis
qed (use assms in auto)

lemma yields_query_deref:
  assumes "yields (F (Elem page sel 0)) Q"
  shows "yields (bnd (page_query_selector env page sel) (\<lambda>h. bnd (deref h) F)) Q"
  unfolding yields_def
proof (intro allI impI)
  fix s y s'
  assume run: "bnd (page_query_selector env page sel) (\<lambda>h. bnd (deref h) F) s = (Inr y, s')"
  obtain r s1 where c: "call env (query_selector env page sel) s = (r, s1)"
    by (cases "call env (query_selector env page sel) s")
  then have ev: "events s1 = events s" by (auto simp: call_def split: prod.splits)
  from run c obtain found where r: "r = Inr found"
    by (cases r) (simp_all add: page_query_selector_def bnd_def)
  from run c r have found and "F (Elem page sel 0) s1 = (Inr y, s')"
    by (cases found; simp add: page_query_selector_def bnd_def ret_def deref_def raise_def)+
  from yieldsD [OF assms this(2)] ev show "\<exists>new. events s' = events s @ new \<and> Q y new"
    by metis
qed

subsection \<open>Events that neither click Create nor read a draft identifier\<close>

definition href_of :: "event \<Rightarrow> string list" where
  "href_of ev =
     (case ev of
        AttrRead e name v \<Rightarrow> if name = ''href'' \<and> or_empty v \<noteq> [] then [or_empty v] else []
      | _ \<Rightarrow> [])"

definition hrefs_read :: "event list \<Rightarrow> string list" where
  \<comment> \<open>the draft identifiers read, in the order they were read\<close>
  "hrefs_read evs = concat (map href_of evs)"

definition plain :: "event \<Rightarrow> bool" where
  "plain ev = (href_of ev = [] \<and> \<not> is_create_click ev)"

lemma hrefs_read_append [simp]: "hrefs_read (xs @ ys) = hrefs_read xs @ hrefs_read ys"
  by (simp add: hrefs_read_def)

lemma hrefs_read_Nil [simp]: "hrefs_read [] = []"
  by (simp add: hrefs_read_def)

lemma hrefs_read_plain: "list_all plain evs \<Longrightarrow> hrefs_read evs = []"
  by (induction evs) (simp_all add: hrefs_read_def plain_def)

lemma no_click_plain: "list_all plain evs \<Longrightarrow> filter is_create_click evs = []"
  by (induction evs) (simp_all add: plain_def)

lemma plain_simps:
  "plain (PageOpened p)" "plain (PageClosed p)" "plain (FileWritten path b)"
  "plain (Clicked (Elem pg master_sel i))"
  "l \<in> set [''10s'', ''5s'', ''15s'', ''20s'', ''25s''] \<Longrightarrow> plain (Clicked (Elem pg (button_has_text l) i))"
  by (auto simp: plain_def href_of_def is_create_click_def master_sel_def create_sel_def
        create_aria_sel_def button_has_text_def)

lemma adds_only_elem_click: "P (Clicked e) \<Longrightarrow> adds_only P (elem_click env e)"
  unfolding elem_click_def by (intro adds_only_intros adds_only_emit)

lemma adds_only_get_page: "(\<And>p. P (PageOpened p)) \<Longrightarrow> adds_only P (get_page env url)"
  unfolding get_page_def by (intro adds_only_intros adds_only_alloc_page)

lemma adds_only_wait_for_element: "adds_only P (wait_for_element env page sel ms)"
  unfolding wait_for_element_def by (intro adds_only_intros)

lemma adds_only_retry_or_break:
  "P (PageClosed page) \<Longrightarrow> adds_only P (retry_or_break env page attempt delay_s msg)"
  unfolding retry_or_break_def by (auto intro!: adds_only_intros adds_only_close_page)

lemma adds_only_find_duration_button_then:
  assumes none: "adds_only P (G None)"
    and some: "\<And>l. l \<in> set labels \<Longrightarrow> adds_only P (G (Some (Elem page (button_has_text l) 0)))"
  shows "adds_only P (bnd (find_duration_button env page labels) G)"
  using some
proof (induction labels)
  case Nil
  have "bnd (find_duration_button env page []) G = G None"
    by (rule ext) (simp add: bnd_def ret_def)
  with none show ?case by simp
next
  case (Cons l ls)
  have rest: "adds_only P (bnd (find_duration_button env page ls) G)"
    by (rule Cons.IH) (simp add: Cons.prems)
  have here: "adds_only P (G (Some (Elem page (button_has_text l) 0)))"
    by (rule Cons.prems) simp
  show ?case
    unfolding adds_only_def
  proof
    fix s
    obtain r s1 where c: "call env (query_selector env page (button_has_text l)) s = (r, s1)"
      by (cases "call env (query_selector env page (button_has_text l)) s")
    then have ev: "events s1 = events s" by (auto simp: call_def split: prod.splits)
    show "\<exists>new. events (snd (bnd (find_duration_button env page (l # ls)) G s)) = events s @ new
                \<and> list_all P new"
    proof (cases r)
      case (Inl e)
      with c ev show ?thesis by (simp add: bnd_def page_query_selector_def)
    next
      case (Inr found)
      show ?thesis
      proof (cases found)
        case True
        with c Inr have "bnd (find_duration_button env page (l # ls)) G s =
                           G (Some (Elem page (button_has_text l) 0)) s1"
          by (simp add: bnd_def page_query_selector_def ret_def)
        moreover from here
        have "\<exists>new. events (snd (G (Some (Elem page (button_has_text l) 0)) s1)) = events s1 @ new
                    \<and> list_all P new"
          unfolding adds_only_def by blast
        ultimately show ?thesis using ev by simp
      next
        case False
        with c Inr have "bnd (find_duration_button env page (l # ls)) G s =
                           bnd (find_duration_button env page ls) G s1"
          by (simp add: bnd_def page_query_selector_def ret_def)
        moreover from rest
        have "\<exists>new. events (snd (bnd (find_duration_button env page ls) G s1)) = events s1 @ new
                    \<and> list_all P new"
          unfolding adds_only_def by blast
        ultimately show ?thesis using ev by simp
      qed
    qed
  qed
qed

lemma adds_only_set_duration: "adds_only plain (set_duration env page duration)"
  unfolding set_duration_def
  by (intro adds_only_try_except adds_only_find_duration_button_then)
     (auto intro!: adds_only_intros adds_only_elem_click plain_simps)

lemma adds_only_scene_cards_step: "adds_only P (scene_cards_step env page)"
  unfolding scene_cards_step_def
  by (auto intro!: adds_only_intros adds_only_page_query_selector_all)

lemma scene_cards_loop_events:
  "events (snd (scene_cards_loop env page deadline s)) = events s"
proof (induction env page deadline s rule: scene_cards_loop.induct)
  case (1 env page deadline s)
  show ?case
  proof (cases "clock s < deadline")
    case False
    then show ?thesis by (simp add: scene_cards_loop.simps)
  next
    case True
    obtain r1 s1 where st: "scene_cards_step env page s = (r1, s1)"
      by (cases "scene_cards_step env page s")
    have "adds_only (\<lambda>ev. False) (scene_cards_step env page)"
      by (rule adds_only_scene_cards_step)
    from adds_onlyD [OF this st] have ev1: "events s1 = events s"
      by (metis append_Nil2 list.pred_inject(2) list.exhaust)
    show ?thesis
    proof (cases r1)
      case (Inl e)
      with True st ev1 show ?thesis by (simp add: scene_cards_loop.simps)
    next
      case (Inr found)
      show ?thesis
      proof (cases found)
        case True
        with \<open>clock s < deadline\<close> st Inr ev1 show ?thesis by (simp add: scene_cards_loop.simps)
      next
        case False
        then have nf: "found = False" by simp
        from "1.IH" [OF True st [symmetric] Inr nf]
        have "events (snd (scene_cards_loop env page deadline (snd (sleep 5000 s1)))) =
                events (snd (sleep 5000 s1))" .
        moreover have "events (snd (sleep 5000 s1)) = events s1" by (simp add: sleep_def)
        moreover have "scene_cards_loop env page deadline s =
                         scene_cards_loop env page deadline (snd (sleep 5000 s1))"
          using True st Inr False by (subst scene_cards_loop.simps) simp
        ultimately show ?thesis using ev1 by simp
      qed
    qed
  qed
qed

lemma adds_only_wait_for_scene_cards: "adds_only P (wait_for_scene_cards env page timeout_s)"
  unfolding adds_only_def wait_for_scene_cards_def
  by (simp add: bnd_def time_now_def scene_cards_loop_events)

subsection \<open>The listing that a read of the drafts page returns\<close>

lemma yields_elem_get_attribute:
  "yields (elem_get_attribute env e name) (\<lambda>v new. new = [AttrRead e name v])"
  unfolding yields_def elem_get_attribute_def
  by (auto simp: bnd_def call_def emit_def ret_def split: prod.splits sum.splits)

lemma yields_collect_hrefs:
  "yields (collect_hrefs env links acc)
     (\<lambda>L new. L = acc @ hrefs_read new \<and> filter is_create_click new = [])"
proof (induction links arbitrary: acc)
  case Nil
  then show ?case by (simp add: yields_ret)
next
  case (Cons link links)
  show ?case
    unfolding collect_hrefs.simps
  proof (rule yields_bnd_with [OF yields_elem_get_attribute Cons.IH])
    fix x :: "string option" and n1 y n2
    assume "n1 = [AttrRead link ''href'' x]"
      and "y = (if or_empty x \<noteq> [] then acc @ [or_empty x] else acc) @ hrefs_read n2
           \<and> filter is_create_click n2 = []"
    then show "y = acc @ hrefs_read (n1 @ n2) \<and> filter is_create_click (n1 @ n2) = []"
      by (simp add: hrefs_read_def href_of_def is_create_click_def)
  qed
qed

lemma yields_get_draft_hrefs:
  "yields (get_draft_hrefs env page)
     (\<lambda>L new. L = hrefs_read new \<and> filter is_create_click new = [])"
  unfolding get_draft_hrefs_def
proof (rule yields_bnd [where P = "\<lambda>ev. False"])
  show "adds_only (\<lambda>ev. False) (page_query_selector_all env page ''a[href^=\"/d/\"]'')"
    by (rule adds_only_page_query_selector_all)
  show "yields (collect_hrefs env links [])
          (\<lambda>L new. L = hrefs_read new \<and> filter is_create_click new = [])" for links
    using yields_collect_hrefs [of env links "[]"] by simp
  show "y = hrefs_read (n1 @ n2) \<and> filter is_create_click (n1 @ n2) = []"
    if "list_all (\<lambda>ev. False) n1" and "y = hrefs_read n2 \<and> filter is_create_click n2 = []"
    for y n1 n2
    using that by (cases n1) simp_all
qed

lemma yields_of_adds_only: "adds_only P m \<Longrightarrow> yields m (\<lambda>x new. list_all P new)"
  unfolding yields_def using adds_onlyD by metis

subsection \<open>The snapshot of the drafts\<close>

definition snapped :: "'a + string set \<Rightarrow> event list \<Rightarrow> bool" where
  \<comment> \<open>when the steps before the commit deliver a snapshot, it is the set of the draft
      identifiers read so far, and Create has not been clicked\<close>
  "snapped p new =
     (case p of Inl x \<Rightarrow> True
      | Inr S \<Rightarrow> S = set (hrefs_read new) \<and> filter is_create_click new = [])"

lemma snapped_after_plain: "list_all plain n1 \<Longrightarrow> snapped y n2 \<Longrightarrow> snapped y (n1 @ n2)"
  by (cases y) (simp_all add: snapped_def hrefs_read_plain no_click_plain)

lemma yields_step:
  assumes "adds_only plain m" and "\<And>x. yields (f x) snapped"
  shows "yields (bnd m f) snapped"
  by (rule yields_bnd [where P = plain, OF assms]) (rule snapped_after_plain)

lemma yields_end_attempt:
  "yields (bnd (retry_or_break env page attempt delay_s msg) (\<lambda>x. ret (Inl x))) snapped"
proof (rule yields_bnd_with [where ?Q1.0 = "\<lambda>x n. True" and ?Q2.0 = "\<lambda>x y n. y = Inl x"])
  show "yields (retry_or_break env page attempt delay_s msg) (\<lambda>x n. True)"
    using yields_of_adds_only [OF adds_only_retry_or_break [of "\<lambda>ev. True"]]
    by (simp add: list_all_iff)
  show "yields (ret (Inl x)) (\<lambda>y n. y = Inl x)" for x :: loop_exit
    by (rule yields_ret) simp
  show "snapped y (n1 @ n2)" if "y = Inl x" for x :: loop_exit and y :: "loop_exit + string set"
    and n1 n2
    using that by (simp add: snapped_def)
qed

lemma yields_sora_snapshot:
  "yields (sora_snapshot env)
     (\<lambda>S new. S = set (hrefs_read new) \<and> filter is_create_click new = [])"
  unfolding sora_snapshot_def
proof (rule yields_bnd [where P = plain])
  show "adds_only plain (get_page env SORA_DRAFTS_URL)"
    by (rule adds_only_get_page) (rule plain_simps)
  show "S = set (hrefs_read (n1 @ n2)) \<and> filter is_create_click (n1 @ n2) = []"
    if "list_all plain n1" and "S = set (hrefs_read n2) \<and> filter is_create_click n2 = []"
    for S n1 n2
    using that by (simp add: hrefs_read_plain no_click_plain)
  fix drafts_page
  show "yields (bnd (sleep 3000) (\<lambda>_.
                bnd (get_draft_hrefs env drafts_page) (\<lambda>hrefs.
                bnd (close_page env drafts_page) (\<lambda>_. ret (set hrefs)))))
          (\<lambda>S new. S = set (hrefs_read new) \<and> filter is_create_click new = [])"
  proof (rule yields_bnd [where P = plain])
    show "adds_only plain (sleep 3000)" by (rule adds_only_sleep)
    show "S = set (hrefs_read (n1 @ n2)) \<and> filter is_create_click (n1 @ n2) = []"
      if "list_all plain n1" and "S = set (hrefs_read n2) \<and> filter is_create_click n2 = []"
      for S n1 n2
      using that by (simp add: hrefs_read_plain no_click_plain)
    fix u :: unit
    show "yields (bnd (get_draft_hrefs env drafts_page) (\<lambda>hrefs.
                  bnd (close_page env drafts_page) (\<lambda>_. ret (set hrefs))))
            (\<lambda>S new. S = set (hrefs_read new) \<and> filter is_create_click new = [])"
    proof (rule yields_bnd_with [OF yields_get_draft_hrefs,
             where ?Q2.0 = "\<lambda>hrefs S n. S = set hrefs \<and> list_all plain n"])
      fix hrefs
      show "yields (bnd (close_page env drafts_page) (\<lambda>_. ret (set hrefs)))
              (\<lambda>S n. S = set hrefs \<and> list_all plain n)"
      proof (rule yields_bnd_with [where ?Q1.0 = "\<lambda>x n. list_all plain n"
               and ?Q2.0 = "\<lambda>x S n. S = set hrefs \<and> n = []"])
        show "yields (close_page env drafts_page) (\<lambda>x n. list_all plain n)"
          by (rule yields_of_adds_only) (rule adds_only_close_page, rule plain_simps)
        show "yields (ret (set hrefs)) (\<lambda>S n. S = set hrefs \<and> n = [])" for x :: unit
          by (rule yields_ret) simp
        show "S = set hrefs \<and> list_all plain (n1 @ n2)"
          if "list_all plain n1" and "S = set hrefs \<and> n2 = []" for S n1 n2
          using that by simp
      qed
    next
      fix hrefs n1 S n2
      assume "hrefs = hrefs_read n1 \<and> filter is_create_click n1 = []"
        and "S = set hrefs \<and> list_all plain n2"
      then show "S = set (hrefs_read (n1 @ n2)) \<and> filter is_create_click (n1 @ n2) = []"
        by (simp add: hrefs_read_plain no_click_plain)
    qed
  qed
qed

lemma yields_snapshot_ret:
  "yields (bnd (sora_snapshot env) (\<lambda>existing_drafts. ret (Inr existing_drafts))) snapped"
proof (rule yields_bnd_with [OF yields_sora_snapshot,
         where ?Q2.0 = "\<lambda>S y n. y = Inr S \<and> n = []"])
  show "yields (ret (Inr S)) (\<lambda>y n. y = Inr S \<and> n = [])" for S :: "string set"
    by (rule yields_ret) simp
  show "snapped y (n1 @ n2)"
    if "S = set (hrefs_read n1) \<and> filter is_create_click n1 = []" and "y = Inr S \<and> n2 = []"
    for S n1 n2 and y :: "'b + string set"
    using that by (simp add: snapped_def)
qed

lemma yields_sora_prepare: "yields (sora_prepare env prompt duration attempt page) snapped"
  unfolding sora_prepare_def
  by (intro yields_if yields_end_attempt yields_snapshot_ret yields_query_deref yields_step
        adds_only_sleep adds_only_call adds_only_set_duration adds_only_wait_for_element
        adds_only_wait_for_scene_cards adds_only_elem_click plain_simps)

lemma sora_prepare_snapshot:
  assumes "sora_prepare env prompt duration attempt page s1 = (Inr (Inr S), s2)"
  shows "\<exists>pre. events s2 = events s1 @ pre \<and> S = set (hrefs_read pre) \<and> create_clicks pre = 0"
proof -
  from yieldsD [OF yields_sora_prepare assms] obtain pre
    where "events s2 = events s1 @ pre" and "snapped (Inr S :: loop_exit + string set) pre"
    by blast
  then show ?thesis by (auto simp: snapped_def create_clicks_def)
qed

subsection \<open>The commit\<close>

lemma end_attempt_is_Inl: "bnd m (\<lambda>x. ret (Inl x)) s \<noteq> (Inr (Inr u), s')"
  by (auto simp: bnd_def ret_def split: prod.splits sum.splits)

lemma page_query_selector_result:
  "page_query_selector env page sel s = (Inr (Some e), s') \<Longrightarrow> e = Elem page sel 0"
  by (auto simp: page_query_selector_def bnd_def ret_def split: prod.splits sum.splits if_splits)

lemma yields_elem_click: "yields (elem_click env e) (\<lambda>u new. new = [Clicked e])"
  unfolding yields_def elem_click_def
  by (auto simp: bnd_def call_def emit_def split: prod.splits sum.splits)

lemma yields_click_sleep:
  "yields (bnd (elem_click env e) (\<lambda>_. bnd (sleep ms) (\<lambda>_. ret x))) (\<lambda>y new. new = [Clicked e])"
proof (rule yields_bnd_with [OF yields_elem_click, where ?Q2.0 = "\<lambda>u y n. n = []"])
  show "yields (bnd (sleep ms) (\<lambda>_. ret x)) (\<lambda>y n. n = [])" for u :: unit
    by (simp add: yields_def bnd_def sleep_def ret_def)
qed simp

lemma sora_commit_clicks_once:
  assumes "sora_commit env page attempt s = (Inr (Inr ()), s')"
  shows "\<exists>b. events s' = events s @ [Clicked b] \<and> is_create_click (Clicked b)"
proof -
  obtain r1 t1 where q1: "page_query_selector env page create_sel s = (r1, t1)"
    by (cases "page_query_selector env page create_sel s")
  then have ev1: "events t1 = events s"
    by (auto simp: page_query_selector_def bnd_def call_def ret_def split: prod.splits sum.splits)
  from assms q1 obtain b1 where r1: "r1 = Inr b1"
    by (cases r1) (simp_all add: sora_commit_def bnd_def)
  define m2 :: "('a, elem option) io"
    where "m2 = (case b1 of Some b \<Rightarrow> ret (Some b)
                 | None \<Rightarrow> page_query_selector env page create_aria_sel)"
  obtain r2 t2 where q2: "m2 t1 = (r2, t2)" by (cases "m2 t1")
  then have ev2: "events t2 = events t1"
    by (auto simp: m2_def page_query_selector_def bnd_def call_def ret_def
             split: prod.splits sum.splits option.splits)
  from assms q1 r1 q2 obtain create_btn where r2: "r2 = Inr create_btn"
    by (cases r2) (simp_all add: sora_commit_def bnd_def m2_def)
  have step: "sora_commit env page attempt s =
                (case create_btn of
                   None \<Rightarrow> bnd (retry_or_break env page attempt SORA_RETRY_DELAY_S
                                  ''Could not find Create button'') (\<lambda>x. ret (Inl x))
                 | Some b \<Rightarrow> bnd (elem_click env b) (\<lambda>_. bnd (sleep 5000) (\<lambda>_. ret (Inr ())))) t2"
    using q1 r1 q2 r2 by (simp add: sora_commit_def bnd_def m2_def)
  have "create_btn \<noteq> None"
  proof
    assume "create_btn = None"
    with step assms
    have "bnd (retry_or_break env page attempt SORA_RETRY_DELAY_S ''Could not find Create button'')
            (\<lambda>x. ret (Inl x)) t2 = (Inr (Inr ()), s')"
      by simp
    then show False by (rule end_attempt_is_Inl [THEN notE])
  qed
  then obtain b where btn: "create_btn = Some b" by blast
  with step
  have "bnd (elem_click env b) (\<lambda>_. bnd (sleep 5000) (\<lambda>_. ret (Inr ()))) t2 =
          sora_commit env page attempt s"
    by simp
  then have run: "bnd (elem_click env b) (\<lambda>_. bnd (sleep 5000) (\<lambda>_. ret (Inr ()))) t2 =
                    (Inr (Inr () :: loop_exit + unit), s')"
    using assms by (rule trans)
  have "b = Elem page create_sel 0 \<or> b = Elem page create_aria_sel 0"
  proof (cases b1)
    case (Some b')
    with q2 r2 btn have "b' = b" by (simp add: m2_def ret_def)
    with q1 r1 Some show ?thesis by (simp add: page_query_selector_result)
  next
    case None
    with q2 r2 btn show ?thesis by (simp add: m2_def page_query_selector_result)
  qed
  then have "is_create_click (Clicked b)" by (auto simp: is_create_click_def)
  moreover from yieldsD [OF yields_click_sleep run] have "events s' = events t2 @ [Clicked b]"
    by simp
  ultimately show ?thesis using ev1 ev2 by simp
qed

subsection \<open>What the wait detects\<close>

lemma new_hrefs_append: "new_hrefs (xs @ ys) S = new_hrefs xs S @ new_hrefs ys S"
  by (simp add: new_hrefs_def)

lemma poll_drafts_loop_detects:
  "poll_drafts_loop env page S deadline s = (Inr r, s') \<Longrightarrow>
     \<exists>new. events s' = events s @ new \<and>
           r = (case new_hrefs (hrefs_read new) S of [] \<Rightarrow> None | h # hs \<Rightarrow> Some h)"
proof (induction env page S deadline s rule: poll_drafts_loop.induct)
  case (1 env page S deadline s)
  show ?case
  proof (cases "clock s < deadline")
    case False
    with "1.prems" have "s' = s" and "r = None" by (simp_all add: poll_drafts_loop.simps)
    then show ?thesis by (simp add: new_hrefs_def)
  next
    case True
    obtain r1 s1 where g: "get_draft_hrefs env page s = (r1, s1)"
      by (cases "get_draft_hrefs env page s")
    from "1.prems" True g obtain L where r1: "r1 = Inr L"
      by (cases r1) (simp_all add: poll_drafts_loop.simps)
    from yieldsD [OF yields_get_draft_hrefs] g r1 obtain n1
      where n1: "events s1 = events s @ n1" "L = hrefs_read n1" by blast
    show ?thesis
    proof (cases "new_hrefs L S")
      case (Cons h hs)
      with "1.prems" True g r1 have "s' = s1" and "r = Some h"
        by (simp_all add: poll_drafts_loop.simps)
      with n1 Cons show ?thesis by auto
    next
      case Nil
      obtain r2 s2 where rl: "call env (reload env page) s1 = (r2, s2)"
        by (cases "call env (reload env page) s1")
      then have ev2: "events s2 = events s1" by (auto simp: call_def split: prod.splits)
      from "1.prems" True g r1 Nil rl obtain u where r2: "r2 = Inr u"
        by (cases r2) (simp_all add: poll_drafts_loop.simps)
      let ?s3 = "snd (sleep (SORA_DRAFT_POLL_INTERVAL_S * 1000) s2)"
      have ev3: "events ?s3 = events s2" by (simp add: sleep_def)
      have "poll_drafts_loop env page S deadline ?s3 = (Inr r, s')"
        using "1.prems" True g r1 Nil rl r2 by (subst (asm) poll_drafts_loop.simps) simp
      from "1.IH" [OF True g [symmetric] r1 Nil rl [symmetric] r2 this]
      obtain n3 where n3: "events s' = events ?s3 @ n3"
        "r = (case new_hrefs (hrefs_read n3) S of [] \<Rightarrow> None | h # hs \<Rightarrow> Some h)"
        by blast
      from n1 n3 ev2 ev3 Nil
      have "events s' = events s @ (n1 @ n3)"
        and "r = (case new_hrefs (hrefs_read (n1 @ n3)) S of [] \<Rightarrow> None | h # hs \<Rightarrow> Some h)"
        by (simp_all add: new_hrefs_append)
      then show ?thesis by blast
    qed
  qed
qed

lemma poll_drafts_for_new_detects:
  assumes "poll_drafts_for_new env page S timeout_ms s = (Inr r, s')"
  shows "\<exists>new. events s' = events s @ new \<and>
               r = (case new_hrefs (hrefs_read new) S of [] \<Rightarrow> None | h # hs \<Rightarrow> Some h)"
  using assms poll_drafts_loop_detects [of env page S "clock s + timeout_ms" s r s']
  by (simp add: poll_drafts_for_new_def bnd_def time_now_def)

section \<open>The new draft is the listing minus the snapshot\<close>

text \<open>
  Within one attempt the wait works on the snapshot of that attempt.  Take any attempt in
  which the steps up to the snapshot went through and delivered the snapshot \<open>S\<close>, Create
  was clicked, the navigation to the drafts page succeeded, and the poll of the drafts
  listing returned \<open>r\<close>.  Then

    \<^item> for every listing \<open>L\<close>, the identifiers the poll takes as new are those of \<open>L\<close> that
      are not in \<open>S\<close>;
    \<^item> \<open>S\<close> is the set of the draft identifiers read up to the end of the snapshot, and
      Create was not clicked in the attempt up to then;
    \<^item> the commit adds exactly one event, the click on Create;
    \<^item> the poll was run with \<open>S\<close> itself and its result decides how the attempt goes on;
      that result is the first identifier, among those read from the listing after the
      commit, that is not in \<open>S\<close>, and \<open>None\<close> when there is none.
\<close>

theorem new_draft_is_listing_minus_snapshot:
  assumes prepared: "sora_prepare env prompt duration attempt page s1 = (Inr (Inr S), s2)"
    and committed: "sora_commit env page attempt s2 = (Inr (Inr ()), s3)"
    and navigated: "call env (goto env page SORA_DRAFTS_URL) s3 = (Inr (), s4)"
    and polled: "poll_drafts_for_new env page S SORA_TIMEOUT_MS (snd (sleep 3000 s4)) = (Inr r, s5)"
  shows "set (new_hrefs L S) = set L - S \<and>
         (\<exists>pre. events s2 = events s1 @ pre \<and> S = set (hrefs_read pre) \<and> create_clicks pre = 0) \<and>
         (\<exists>b. events s3 = events s2 @ [Clicked b] \<and> is_create_click (Clicked b)) \<and>
         (\<exists>new. events s5 = events s3 @ new \<and>
                r = (case new_hrefs (hrefs_read new) S of [] \<Rightarrow> None | h # hs \<Rightarrow> Some h)) \<and>
         sora_try env prompt output_path duration attempt page start_time s1 =
           (if or_empty r = [] then (Inr (Break timed_out_error), s5)
            else sora_download env output_path page start_time (or_empty r) s5)"
proof (intro conjI)
  show "set (new_hrefs L S) = set L - S"
    by (auto simp: new_hrefs_def)
  show "\<exists>pre. events s2 = events s1 @ pre \<and> S = set (hrefs_read pre) \<and> create_clicks pre = 0"
    using prepared by (rule sora_prepare_snapshot)
  show "\<exists>b. events s3 = events s2 @ [Clicked b] \<and> is_create_click (Clicked b)"
    using committed by (rule sora_commit_clicks_once)
  have "events s4 = events s3"
    using navigated by (auto simp: call_def split: prod.splits)
  then have "events (snd (sleep 3000 s4)) = events s3" by (simp add: sleep_def)
  with poll_drafts_for_new_detects [OF polled]
  show "\<exists>new. events s5 = events s3 @ new \<and>
              r = (case new_hrefs (hrefs_read new) S of [] \<Rightarrow> None | h # hs \<Rightarrow> Some h)"
    by simp
  have "sora_await_new_entry env output_path page start_time S s3 =
          (if or_empty r = [] then (Inr (Break timed_out_error), s5)
           else sora_download env output_path page start_time (or_empty r) s5)"
    using navigated polled
    by (simp add: sora_await_new_entry_def bnd_def ret_def sleep_def)
  then show "sora_try env prompt output_path duration attempt page start_time s1 =
               (if or_empty r = [] then (Inr (Break timed_out_error), s5)
                else sora_download env output_path page start_time (or_empty r) s5)"
    using prepared committed by (simp add: sora_try_def bnd_def)
qed

definition new_draft_env :: "nat env" where
  \<comment> \<open>the external state counts the navigations.  Two elements match every selector; the
      two drafts listed are the old one until the third navigation, after which the
      first one listed is new\<close>
  "new_draft_env =
     quiet_env
       \<lparr> goto := (\<lambda>p u t w. (Inr (), Suc w)),
         query_selector_all := (\<lambda>p sel. ok 2),
         get_attribute := (\<lambda>e name t w.
            (Inr (Some (if name = ''src'' then ''https://cdn.example.org/v.mp4''
                        else if w < 3 then ''/d/gen_old''
                        else (case e of Elem p sel i \<Rightarrow>
                                if i = 0 then ''/d/gen_new'' else ''/d/gen_old''))), w)) \<rparr>"

lemma upt_two: "[0..<2] = [0, Suc 0]"
  by (simp add: numeral_2_eq_2)

lemmas new_draft_defs =
  sora_defs new_draft_env_def quiet_env_def initial_state_def io_defs config_defs upt_two

theorem new_draft_is_listing_minus_snapshot_witness:
  "fst (sora_prepare new_draft_env ''a red fox'' 25 1 0
          (snd (get_page new_draft_env SORA_STORYBOARD_URL initial_state))) =
     Inr (Inr {''/d/gen_old''}) \<and>
   set (new_hrefs [''/d/gen_new'', ''/d/gen_old''] {''/d/gen_old''}) = {''/d/gen_new''} \<and>
   fst (sora_try new_draft_env ''a red fox'' ''out/fox.mp4'' 25 1 0 0
          (snd (get_page new_draft_env SORA_STORYBOARD_URL initial_state))) =
     Inr (Return (success_result ''out/fox.mp4'' 26000))"
proof -
  define s1 where "s1 = snd (get_page new_draft_env SORA_STORYBOARD_URL initial_state)"
  define s2 where "s2 = snd (sora_prepare new_draft_env ''a red fox'' 25 1 0 s1)"
  define s3 where "s3 = snd (sora_commit new_draft_env 0 1 s2)"
  define s4 where "s4 = snd (call new_draft_env (goto new_draft_env 0 SORA_DRAFTS_URL) s3)"
  define s5 where "s5 = snd (poll_drafts_for_new new_draft_env 0 {''/d/gen_old''} SORA_TIMEOUT_MS
                               (snd (sleep 3000 s4)))"
  have s1: "s1 = \<lparr> clock = 0, events = [PageOpened 0], next_page = 1, ext = 1 \<rparr>"
    unfolding s1_def by (simp add: new_draft_defs)
  have prepared: "sora_prepare new_draft_env ''a red fox'' 25 1 0 s1 =
                    (Inr (Inr {''/d/gen_old''}), s2)"
    unfolding s2_def s1 by (simp add: new_draft_defs)
  have s2: "clock s2 = 13000 \<and> ext s2 = 2"
    unfolding s2_def s1 by (simp add: new_draft_defs)
  have committed: "sora_commit new_draft_env 0 1 s2 = (Inr (Inr ()), s3)"
    unfolding s3_def by (simp add: new_draft_defs)
  have s3: "clock s3 = 18000 \<and> ext s3 = 2"
    unfolding s3_def using s2 by (simp add: new_draft_defs)
  have navigated: "call new_draft_env (goto new_draft_env 0 SORA_DRAFTS_URL) s3 = (Inr (), s4)"
    unfolding s4_def by (simp add: new_draft_defs)
  have s4: "clock s4 = 18000 \<and> ext s4 = 3"
    unfolding s4_def using s3 by (simp add: new_draft_defs)
  have "fst (poll_drafts_for_new new_draft_env 0 {''/d/gen_old''} SORA_TIMEOUT_MS
               (snd (sleep 3000 s4))) = Inr (Some ''/d/gen_new'')"
    using s4 by (simp add: new_draft_defs)
  then have polled:
    "poll_drafts_for_new new_draft_env 0 {''/d/gen_old''} SORA_TIMEOUT_MS (snd (sleep 3000 s4)) =
       (Inr (Some ''/d/gen_new''), s5)"
    unfolding s5_def by (metis prod.collapse)
  have s5: "clock s5 = 21000"
    unfolding s5_def using s4 by (simp add: new_draft_defs)
  from new_draft_is_listing_minus_snapshot
    [OF prepared committed navigated polled,
     of "[''/d/gen_new'', ''/d/gen_old'']" "''out/fox.mp4''" 0]
  have diff: "set (new_hrefs [''/d/gen_new'', ''/d/gen_old''] {''/d/gen_old''}) =
                set [''/d/gen_new'', ''/d/gen_old''] - {''/d/gen_old''}"
    and run: "sora_try new_draft_env ''a red fox'' ''out/fox.mp4'' 25 1 0 0 s1 =
                sora_download new_draft_env ''out/fox.mp4'' 0 0 ''/d/gen_new'' s5"
    by (simp_all add: or_empty_def)
  have "fst (sora_download new_draft_env ''out/fox.mp4'' 0 0 ''/d/gen_new'' s5) =
          Inr (Return (success_result ''out/fox.mp4'' 26000))"
    using s5 by (simp add: new_draft_defs)
  with prepared diff run show ?thesis
    unfolding s1_def by auto
qed

section \<open>The snapshot and the retry loop\<close>

definition relisting_env :: "nat env" where
  \<comment> \<open>the external state counts the navigations; the third one times out.  The drafts
      page lists the old draft up to then, a first new draft from the fourth navigation
      on and a second one from the seventh on, the newest first.\<close>
  "relisting_env =
     quiet_env
       \<lparr> goto := (\<lambda>p u t w.
            (if w = 2 then Inl (PyExn TimeoutError ''Timeout 120000ms exceeded'') else Inr (), Suc w)),
         query_selector_all := (\<lambda>p sel. ok 3),
         get_attribute := (\<lambda>e name t w.
            (Inr (if name = ''src'' then Some ''https://cdn.example.org/v.mp4''
                  else (case e of Elem p sel i \<Rightarrow>
                          if w < 3 then (if i = 0 then Some ''/d/gen_old'' else None)
                          else if w < 6 then
                            (if i = 0 then Some ''/d/gen_a''
                             else if i = 1 then Some ''/d/gen_old'' else None)
                          else
                            (if i = 0 then Some ''/d/gen_b''
                             else if i = 1 then Some ''/d/gen_a'' else Some ''/d/gen_old''))), w)) \<rparr>"

lemma upt_three: "[0..<3] = [0, Suc 0, Suc (Suc 0)]"
  by (simp add: numeral_3_eq_3)

lemmas relisting_defs =
  sora_defs relisting_env_def quiet_env_def initial_state_def io_defs config_defs upt_three
  create_clicks_def is_create_click_def


text \<open>
  The first attempt, and what the second one does in the state the first one leaves.
\<close>

lemma relisting_attempt_1:
  "\<exists>s. sora_attempt relisting_env ''a red fox'' ''out/fox.mp4'' 25 1 initial_state =
          (Inr (Next ''Timeout 120000ms exceeded''), s) \<and>
        clock s = 48000 \<and> ext s = 3 \<and> next_page s = 2 \<and> create_clicks (events s) = 1"
  by (simp add: relisting_defs)

lemma relisting_prepare_2:
  assumes "clock s = 48000" "ext s = 3" "next_page s = 2"
  shows "fst (get_page relisting_env SORA_STORYBOARD_URL s) = Inr 2 \<and>
         fst (sora_prepare relisting_env ''a red fox'' 25 2 2
                (snd (get_page relisting_env SORA_STORYBOARD_URL s))) =
           Inr (Inr {''/d/gen_a'', ''/d/gen_old''})"
  using assms by (simp add: relisting_defs)

lemma relisting_attempt_2:
  assumes "clock s = 48000" "ext s = 3" "next_page s = 2"
  shows "fst (sora_attempt relisting_env ''a red fox'' ''out/fox.mp4'' 25 2 s) =
           Inr (Return (success_result ''out/fox.mp4'' 26000))"
  using assms by (simp add: relisting_defs)

text \<open>
  C6.  The claim that the snapshot is captured before the commit click, and that the wait
  detects the listing minus that snapshot, fails on the code when an attempt is retried
  after its click (the retry of C1): the snapshot is taken inside the retry loop, so a
  later attempt waits with a snapshot that was read after the click of the earlier one.
  Here the navigation to the drafts page times out once, right after the first click.
  The snapshot of attempt 1, read before the click, is \<open>{/d/gen_old}\<close>.  Attempt 1 clicks
  Create and ends with the exception, which sends the loop to attempt 2, on page 2.  The
  snapshot of attempt 2 is read in a state in which Create has been clicked, and it is
  \<open>{/d/gen_a, /d/gen_old}\<close>: it holds the draft that appeared after the click.  The call
  goes on with that set and reports success.
\<close>

theorem snapshot_retaken_after_commit:
  "fst (sora_prepare relisting_env ''a red fox'' 25 1 0
          (snd (get_page relisting_env SORA_STORYBOARD_URL initial_state))) =
     Inr (Inr {''/d/gen_old''}) \<and>
   fst (sora_attempt relisting_env ''a red fox'' ''out/fox.mp4'' 25 1 initial_state) =
     Inr (Next ''Timeout 120000ms exceeded'') \<and>
   create_clicks (events (snd
     (sora_attempt relisting_env ''a red fox'' ''out/fox.mp4'' 25 1 initial_state))) = 1 \<and>
   generate_sora_video relisting_env ''a red fox'' ''out/fox.mp4'' 25 ''9:16'' initial_state =
     sora_loop relisting_env ''a red fox'' ''out/fox.mp4'' 25 [2, 3] ''Timeout 120000ms exceeded''
       (snd (sora_attempt relisting_env ''a red fox'' ''out/fox.mp4'' 25 1 initial_state)) \<and>
   fst (get_page relisting_env SORA_STORYBOARD_URL
     (snd (sora_attempt relisting_env ''a red fox'' ''out/fox.mp4'' 25 1 initial_state))) = Inr 2 \<and>
   fst (sora_prepare relisting_env ''a red fox'' 25 2 2
          (snd (get_page relisting_env SORA_STORYBOARD_URL
             (snd (sora_attempt relisting_env ''a red fox'' ''out/fox.mp4'' 25 1 initial_state))))) =
     Inr (Inr {''/d/gen_a'', ''/d/gen_old''}) \<and>
   fst (generate_sora_video relisting_env ''a red fox'' ''out/fox.mp4'' 25 ''9:16'' initial_state) =
     Inr (success_result ''out/fox.mp4'' 26000)"
proof -
  from relisting_attempt_1 obtain s
    where a1: "sora_attempt relisting_env ''a red fox'' ''out/fox.mp4'' 25 1 initial_state =
                 (Inr (Next ''Timeout 120000ms exceeded''), s)"
      and s: "clock s = 48000" "ext s = 3" "next_page s = 2"
      and clicks: "create_clicks (events s) = 1"
    by blast
  have p1: "fst (sora_prepare relisting_env ''a red fox'' 25 1 0
                   (snd (get_page relisting_env SORA_STORYBOARD_URL initial_state))) =
              Inr (Inr {''/d/gen_old''})"
    by (simp add: relisting_defs)
  note p2 = relisting_prepare_2 [OF s]
  obtain s' where a2: "sora_attempt relisting_env ''a red fox'' ''out/fox.mp4'' 25 2 s =
                         (Inr (Return (success_result ''out/fox.mp4'' 26000)), s')"
    using relisting_attempt_2 [OF s]
    by (cases "sora_attempt relisting_env ''a red fox'' ''out/fox.mp4'' 25 2 s") simp
  have loop: "generate_sora_video relisting_env ''a red fox'' ''out/fox.mp4'' 25 ''9:16'' initial_state =
                sora_loop relisting_env ''a red fox'' ''out/fox.mp4'' 25 [2, 3] ''Timeout 120000ms exceeded'' s"
    unfolding generate_sora_video_def upt_attempts
    by (subst sora_loop.simps) (simp only: bnd_def a1 prod.case sum.case loop_exit.case)
  have "fst (sora_loop relisting_env ''a red fox'' ''out/fox.mp4'' 25 [2, 3] ''Timeout 120000ms exceeded'' s) =
          Inr (success_result ''out/fox.mp4'' 26000)"
    by (simp add: bnd_def ret_def a2)
  with a1 clicks p1 p2 loop show ?thesis by simp
qed

section \<open>The image that is saved\<close>

subsection \<open>What a computation returns, together with the events so far\<close>

definition ends_in :: "('w, 'a) io \<Rightarrow> ('a \<Rightarrow> event list \<Rightarrow> bool) \<Rightarrow> bool" where
  "ends_in m Q = (\<forall>s x s'. m s = (Inr x, s') \<longrightarrow> Q x (events s'))"

lemma ends_inD: "ends_in m Q \<Longrightarrow> m s = (Inr x, s') \<Longrightarrow> Q x (events s')"
  by (auto simp: ends_in_def)

lemma ends_in_bnd:
  assumes "\<And>x. ends_in (f x) Q"
  shows "ends_in (bnd m f) Q"
  unfolding ends_in_def
proof (intro allI impI)
  fix s y s'
  assume run: "bnd m f s = (Inr y, s')"
  obtain r s1 where ms: "m s = (r, s1)" by (cases "m s")
  with run obtain x where "f x s1 = (Inr y, s')"
    by (cases r) (simp_all add: bnd_def)
  with assms show "Q y (events s')" by (auto dest: ends_inD)
qed

lemma ends_in_try_except:
  assumes "ends_in m Q" and "\<And>e. ends_in (h e) Q"
  shows "ends_in (try_except m h) Q"
  unfolding ends_in_def
proof (intro allI impI)
  fix s y s'
  assume run: "try_except m h s = (Inr y, s')"
  obtain r s1 where ms: "m s = (r, s1)" by (cases "m s")
  show "Q y (events s')"
  proof (cases r)
    case (Inl e)
    with run ms have "h e s1 = (Inr y, s')" by (simp add: try_except_def)
    with assms(2) show ?thesis by (auto dest: ends_inD)
  next
    case (Inr x)
    with run ms have "m s = (Inr y, s')" by (simp add: try_except_def)
    with assms(1) show ?thesis by (auto dest: ends_inD)
  qed
qed

lemma ends_in_if:
  "(c \<Longrightarrow> ends_in a Q) \<Longrightarrow> (\<not> c \<Longrightarrow> ends_in b Q) \<Longrightarrow> ends_in (if c then a else b) Q"
  by simp

lemma ends_in_case_option:
  "ends_in a Q \<Longrightarrow> (\<And>x. ends_in (b x) Q) \<Longrightarrow> ends_in (case v of None \<Rightarrow> a | Some x \<Rightarrow> b x) Q"
  by (cases v) simp_all

lemma ends_in_returns_only:
  assumes "returns_only m P" and "\<And>x evs. P x \<Longrightarrow> Q x evs"
  shows "ends_in m Q"
  unfolding ends_in_def using assms by (auto dest: returns_onlyD)

subsection \<open>A full-resolution image was read, and it is what was written last\<close>

definition is_file_written :: "event \<Rightarrow> bool" where
  "is_file_written ev = (case ev of FileWritten path content \<Rightarrow> True | _ \<Rightarrow> False)"

definition full_res_src :: "'w env \<Rightarrow> string \<Rightarrow> bytes \<Rightarrow> bool" where
  \<comment> \<open>\<open>src\<close> is a data URI of more than 150000 characters, and \<open>image_data\<close> is the
      base64 decoding of what follows its first comma\<close>
  "full_res_src env src image_data =
     (startswith src ''data:image/'' \<and> 150000 < length src \<and>
      (case split_comma src of
         None \<Rightarrow> False
       | Some (u, encoded) \<Rightarrow> b64decode env encoded = Inr image_data))"

definition read_full_res :: "'w env \<Rightarrow> page \<Rightarrow> bytes \<Rightarrow> event list \<Rightarrow> bool" where
  "read_full_res env page image_data evs =
     (\<exists>pre i src. evs = pre @ [AttrRead (Elem page generated_image_sel i) ''src'' (Some src)] \<and>
                  full_res_src env src image_data)"

definition saved_full_res :: "'w env \<Rightarrow> string \<Rightarrow> event list \<Rightarrow> bool" where
  "saved_full_res env output_path evs =
     (\<exists>pre page i src image_data post.
        evs = pre @ [AttrRead (Elem page generated_image_sel i) ''src'' (Some src),
                     FileWritten output_path image_data] @ post \<and>
        full_res_src env src image_data \<and> image_data \<noteq> [] \<and>
        filter is_file_written post = [])"

definition saved_exit :: "'w env \<Rightarrow> string \<Rightarrow> loop_exit \<Rightarrow> event list \<Rightarrow> bool" where
  "saved_exit env output_path x evs =
     (case x of Return d \<Rightarrow> saved_full_res env output_path evs | _ \<Rightarrow> True)"

lemma startswith_nonempty: "startswith s (c # p) \<Longrightarrow> s \<noteq> []"
  by (cases s) simp_all

lemma scan_images_read:
  "scan_images env imgs s = (Inr (Some b), s') \<Longrightarrow>
     \<exists>pre img src. img \<in> set imgs \<and> events s' = pre @ [AttrRead img ''src'' (Some src)] \<and>
                   full_res_src env src b"
proof (induction imgs arbitrary: s)
  case Nil
  then show ?case by (simp add: ret_def)
next
  case (Cons img imgs)
  obtain r s1 where g: "elem_get_attribute env img ''src'' s = (r, s1)"
    by (cases "elem_get_attribute env img ''src'' s")
  from Cons.prems g obtain v where r: "r = Inr v"
    by (cases r) (simp_all add: bnd_def)
  from yieldsD [OF yields_elem_get_attribute] g r
  have ev1: "events s1 = events s @ [AttrRead img ''src'' v]" by blast
  show ?case
  proof (cases "startswith (or_empty v) ''data:image/'' \<and> 150000 < length (or_empty v)")
    case False
    with Cons.prems g r have "scan_images env imgs s1 = (Inr (Some b), s')"
      by (simp add: bnd_def)
    from Cons.IH [OF this] show ?thesis by auto
  next
    case True
    then have "or_empty v \<noteq> []" by (auto dest: startswith_nonempty)
    then obtain src where v: "v = Some src" by (cases v) (simp_all add: or_empty_def)
    with True have big: "startswith src ''data:image/''" "150000 < length src"
      by (simp_all add: or_empty_def)
    from Cons.prems g r v big
    have run: "(case split_comma src of
                  None \<Rightarrow> raise (PyExn ValueError ''not enough values to unpack (expected 2, got 1)'')
                | Some (u, encoded) \<Rightarrow>
                    bnd (pure_call (b64decode env encoded)) (\<lambda>b. ret (Some b))) s1 =
               (Inr (Some b), s')"
      by (simp add: bnd_def or_empty_def)
    then obtain u encoded where sc: "split_comma src = Some (u, encoded)"
      by (cases "split_comma src") (auto simp: raise_def)
    with run have "b64decode env encoded = Inr b" and "s' = s1"
      by (cases "b64decode env encoded"; simp add: bnd_def pure_call_def ret_def)+
    with sc big ev1 v have "events s' = events s @ [AttrRead img ''src'' (Some src)]"
      and "full_res_src env src b"
      by (simp_all add: full_res_src_def)
    then show ?thesis by auto
  qed
qed

lemma page_query_selector_all_result:
  assumes "page_query_selector_all env page sel s = (Inr elems, s')"
  shows "\<exists>n. elems = map (Elem page sel) [0..<n]"
proof -
  obtain r s1 where c: "call env (query_selector_all env page sel) s = (r, s1)"
    by (cases "call env (query_selector_all env page sel) s")
  with assms show ?thesis
    by (cases r) (auto simp: page_query_selector_all_def bnd_def ret_def)
qed

lemma poll_loaded_step_read:
  assumes "poll_loaded_step env page s = (Inr (Some b), s')"
  shows "read_full_res env page b (events s')"
proof -
  obtain r s1 where q: "page_query_selector_all env page generated_image_sel s = (r, s1)"
    by (cases "page_query_selector_all env page generated_image_sel s")
  from assms q obtain imgs where r: "r = Inr imgs"
    and scan: "scan_images env imgs s1 = (Inr (Some b), s')"
    by (cases r) (simp_all add: poll_loaded_step_def bnd_def)
  from q r obtain n where imgs: "imgs = map (Elem page generated_image_sel) [0..<n]"
    using page_query_selector_all_result by blast
  from scan_images_read [OF scan] obtain pre img src
    where img: "img \<in> set imgs"
      and ev: "events s' = pre @ [AttrRead img ''src'' (Some src)]"
      and full: "full_res_src env src b"
    by blast
  from img imgs obtain i where "img = Elem page generated_image_sel i"
    by (auto simp del: upt_Suc)
  with ev full show ?thesis
    unfolding read_full_res_def by (intro exI [of _ pre] exI [of _ i] exI [of _ src]) simp
qed

lemma poll_loaded_loop_read:
  "poll_loaded_loop env page deadline s = (Inr (Some b), s') \<Longrightarrow>
     read_full_res env page b (events s')"
proof (induction env page deadline s rule: poll_loaded_loop.induct)
  case (1 env page deadline s)
  from "1.prems"
  have run: "(if clock s < deadline then
                (case poll_loaded_step env page s of
                   (Inl e, s1) \<Rightarrow> (Inl e, s1)
                 | (Inr (Some b), s1) \<Rightarrow> (Inr (Some b), s1)
                 | (Inr None, s1) \<Rightarrow>
                     poll_loaded_loop env page deadline
                       (snd (sleep (SCREENSHOT_POLL_INTERVAL_S * 1000) s1)))
              else (Inr None, s)) = (Inr (Some b), s')"
    by (simp only: poll_loaded_loop.simps [of env page deadline s])
  show ?case
  proof (cases "clock s < deadline")
    case False
    with run show ?thesis by simp
  next
    case True
    obtain r1 s1 where st: "poll_loaded_step env page s = (r1, s1)"
      by (cases "poll_loaded_step env page s")
    from run True st obtain found where r1: "r1 = Inr found"
      by (cases r1) simp_all
    show ?thesis
    proof (cases found)
      case (Some b')
      with run True st r1 have "b' = b" and "s' = s1"
        by simp_all
      with st r1 Some show ?thesis by (simp add: poll_loaded_step_read)
    next
      case None
      let ?s2 = "snd (sleep (SCREENSHOT_POLL_INTERVAL_S * 1000) s1)"
      have "poll_loaded_loop env page deadline ?s2 = (Inr (Some b), s')"
        using run True st r1 None by simp
      with "1.IH" [OF True st [symmetric] r1 None] show ?thesis by simp
    qed
  qed
qed

lemma poll_for_loaded_image_read:
  assumes "poll_for_loaded_image env page timeout_ms s = (Inr (Some b), s')"
  shows "read_full_res env page b (events s')"
  using assms poll_loaded_loop_read [of env page "clock s + timeout_ms" s b s']
  by (simp add: poll_for_loaded_image_def bnd_def time_now_def)

lemma yields_path_write_bytes:
  "yields (path_write_bytes env path content) (\<lambda>u new. new = [FileWritten path content])"
  unfolding yields_def path_write_bytes_def
  by (auto simp: bnd_def call_def emit_def split: prod.splits sum.splits)

lemma yields_grok_save:
  "yields (grok_save env output_path page start_time image_data)
     (\<lambda>x new. \<exists>post. new = FileWritten output_path image_data # post \<and>
                     filter is_file_written post = [])"
  unfolding grok_save_def
proof (rule yields_bnd [where P = "\<lambda>ev. False"])
  show "adds_only (\<lambda>ev. False) (call env (mkdir_parents env output_path))"
    by (rule adds_only_call)
  show "\<exists>post. n1 @ n2 = FileWritten output_path image_data # post \<and>
               filter is_file_written post = []"
    if "list_all (\<lambda>ev. False) n1"
      and "\<exists>post. n2 = FileWritten output_path image_data # post \<and>
                  filter is_file_written post = []"
    for n1 n2
    using that by (cases n1) simp_all
  fix u :: unit
  show "yields (bnd (path_write_bytes env output_path image_data) (\<lambda>_.
                bnd time_now (\<lambda>t.
                bnd (close_page env page) (\<lambda>_.
                ret (Return (success_result output_path (int t - int start_time)))))))
          (\<lambda>x new. \<exists>post. new = FileWritten output_path image_data # post \<and>
                          filter is_file_written post = [])"
  proof (rule yields_bnd_with [OF yields_path_write_bytes,
           where ?Q2.0 = "\<lambda>u x n. list_all (\<lambda>ev. \<not> is_file_written ev) n"])
    show "yields (bnd time_now (\<lambda>t.
                  bnd (close_page env page) (\<lambda>_.
                  ret (Return (success_result output_path (int t - int start_time))))))
            (\<lambda>x n. list_all (\<lambda>ev. \<not> is_file_written ev) n)"
      for u :: unit
      by (rule yields_of_adds_only)
         (intro adds_only_intros adds_only_close_page, simp add: is_file_written_def)
    show "\<exists>post. n1 @ n2 = FileWritten output_path image_data # post \<and>
                 filter is_file_written post = []"
      if "n1 = [FileWritten output_path image_data]"
        and "list_all (\<lambda>ev. \<not> is_file_written ev) n2"
      for n1 n2
      using that by (simp add: list_all_iff)
  qed
qed

lemma ends_in_retry_or_break:
  "ends_in (retry_or_break env page attempt delay_s msg) (saved_exit env' output_path)"
  by (rule ends_in_returns_only [where P = "\<lambda>x. \<forall>d. x \<noteq> Return d"])
     (auto intro: returns_only_retry_or_break simp: saved_exit_def split: loop_exit.splits)

lemma ends_in_attempt_except:
  "ends_in (attempt_except env page attempt delay_s e) (saved_exit env' output_path)"
  by (rule ends_in_returns_only [where P = "\<lambda>x. \<forall>d. x \<noteq> Return d"])
     (auto intro: returns_only_attempt_except simp: saved_exit_def split: loop_exit.splits)

lemma ends_in_poll_and_save:
  "ends_in
     (bnd (poll_for_loaded_image env page timeout_ms) (\<lambda>image_data.
        case image_data of
          None \<Rightarrow> retry_or_break env page attempt delay_s msg
        | Some b \<Rightarrow>
            if b = [] then retry_or_break env page attempt delay_s msg
            else grok_save env output_path page start_time b))
     (saved_exit env output_path)"
  unfolding ends_in_def
proof (intro allI impI)
  fix s x s'
  assume run: "bnd (poll_for_loaded_image env page timeout_ms) (\<lambda>image_data.
                 case image_data of
                   None \<Rightarrow> retry_or_break env page attempt delay_s msg
                 | Some b \<Rightarrow>
                     if b = [] then retry_or_break env page attempt delay_s msg
                     else grok_save env output_path page start_time b) s = (Inr x, s')"
  obtain r s1 where p: "poll_for_loaded_image env page timeout_ms s = (r, s1)"
    by (cases "poll_for_loaded_image env page timeout_ms s")
  from run p obtain image_data where r: "r = Inr image_data"
    by (cases r) (simp_all add: bnd_def)
  note retry = ends_inD [OF ends_in_retry_or_break [of env page attempt delay_s msg env output_path]]
  show "saved_exit env output_path x (events s')"
  proof (cases image_data)
    case None
    with run p r have "retry_or_break env page attempt delay_s msg s1 = (Inr x, s')"
      by (simp add: bnd_def)
    then show ?thesis by (rule retry)
  next
    case (Some b)
    show ?thesis
    proof (cases "b = []")
      case True
      with run p r Some have "retry_or_break env page attempt delay_s msg s1 = (Inr x, s')"
        by (simp add: bnd_def)
      then show ?thesis by (rule retry)
    next
      case False
      with run p r Some have "grok_save env output_path page start_time b s1 = (Inr x, s')"
        by (simp add: bnd_def)
      from yieldsD [OF yields_grok_save this] obtain post
        where post: "events s' = events s1 @ FileWritten output_path b # post"
          "filter is_file_written post = []"
        by blast
      from p r Some have "read_full_res env page b (events s1)"
        by (simp add: poll_for_loaded_image_read)
      then obtain pre i src
        where "events s1 = pre @ [AttrRead (Elem page generated_image_sel i) ''src'' (Some src)]"
          and "full_res_src env src b"
        unfolding read_full_res_def by blast
      with post False have "saved_full_res env output_path (events s')"
        unfolding saved_full_res_def
        by (intro exI [of _ pre] exI [of _ page] exI [of _ i] exI [of _ src] exI [of _ b]
              exI [of _ post]) simp
      then show ?thesis by (simp add: saved_exit_def split: loop_exit.splits)
    qed
  qed
qed

lemma ends_in_grok_try:
  "ends_in (grok_try env prompt output_path attempt page start_time) (saved_exit env output_path)"
  unfolding grok_try_def
  by (intro ends_in_poll_and_save ends_in_retry_or_break ends_in_if ends_in_case_option
        ends_in_bnd)

lemma ends_in_grok_attempt:
  "ends_in (grok_attempt env prompt output_path attempt) (saved_exit env output_path)"
  unfolding ends_in_def
proof (intro allI impI)
  fix s x s'
  assume run: "grok_attempt env prompt output_path attempt s = (Inr x, s')"
  obtain r s1 where gp: "get_page env GROK_URL s = (r, s1)" by (cases "get_page env GROK_URL s")
  show "saved_exit env output_path x (events s')"
  proof (cases r)
    case (Inl e)
    with run gp have "attempt_except env None attempt RETRY_DELAY_S e s1 = (Inr x, s')"
      by (simp add: grok_attempt_def)
    then show ?thesis by (rule ends_inD [OF ends_in_attempt_except])
  next
    case (Inr page)
    with run gp
    have "try_except (grok_try env prompt output_path attempt page (clock s))
            (attempt_except env (Some page) attempt RETRY_DELAY_S) s1 = (Inr x, s')"
      by (simp add: grok_attempt_def)
    then show ?thesis
      by (rule ends_inD [OF ends_in_try_except [OF ends_in_grok_try ends_in_attempt_except]])
  qed
qed

lemma failure_is_not_success: "map_of (failure_result e) ''success'' \<noteq> Some (PyBool True)"
  by (simp add: failure_result_def)

lemma grok_loop_saved:
  "grok_loop env prompt output_path attempts last_error s = (Inr r, s') \<Longrightarrow>
   map_of r ''success'' = Some (PyBool True) \<Longrightarrow>
   saved_full_res env output_path (events s')"
proof (induction attempts arbitrary: last_error s)
  case Nil
  then show ?case by (auto simp: ret_def failure_is_not_success)
next
  case (Cons attempt rest)
  obtain r1 s1 where a: "grok_attempt env prompt output_path attempt s = (r1, s1)"
    by (cases "grok_attempt env prompt output_path attempt s")
  from Cons.prems(1) a obtain x where r1: "r1 = Inr x"
    by (cases r1) (simp_all add: bnd_def)
  from ends_inD [OF ends_in_grok_attempt] a r1
  have exit: "saved_exit env output_path x (events s1)" by blast
  show ?case
  proof (cases x)
    case (Return d)
    with Cons.prems(1) a r1 have "s' = s1" by (simp add: bnd_def ret_def)
    with exit Return show ?thesis by (simp add: saved_exit_def)
  next
    case (Break e)
    with Cons.prems a r1 show ?thesis
      by (auto simp: bnd_def ret_def failure_is_not_success)
  next
    case (Next e)
    with Cons.prems(1) a r1 have "grok_loop env prompt output_path rest e s1 = (Inr r, s')"
      by (simp add: bnd_def)
    from Cons.IH [OF this Cons.prems(2)] show ?thesis .
  qed
qed

text \<open>
  C4.  Whenever \<open>generate_grok_image\<close> returns a result whose \<open>success\<close> is true, the
  last file written is the output path; the bytes written there are not empty and are the
  base64 decoding of what follows the first comma of a \<open>src\<close> attribute that was read,
  right before the write, from an element matching \<open>img[alt="Generated image"]\<close>; that
  \<open>src\<close> starts with \<open>data:image/\<close> and is more than 150000 characters long.  The
  threshold is compared with the length of the whole attribute, as \<open>len(src) > 150_000\<close>
  does.  So no \<open>src\<close> of 150000 characters or fewer is ever decoded into the file that a
  successful call leaves at the output path.
\<close>

theorem grok_saves_full_resolution_image:
  assumes "generate_grok_image env prompt output_path aspect_ratio s = (Inr r, s')"
    and "map_of r ''success'' = Some (PyBool True)"
  shows "\<exists>pre page i src image_data post.
           events s' = pre @ [AttrRead (Elem page generated_image_sel i) ''src'' (Some src),
                             FileWritten output_path image_data] @ post \<and>
           filter is_file_written post = [] \<and>
           image_data \<noteq> [] \<and>
           startswith src ''data:image/'' \<and> 150000 < length src \<and>
           (\<exists>u encoded. split_comma src = Some (u, encoded) \<and>
                        b64decode env encoded = Inr image_data)"
proof -
  from assms have "saved_full_res env output_path (events s')"
    unfolding generate_grok_image_def by (rule grok_loop_saved)
  then obtain pre page i src image_data post
    where "events s' = pre @ [AttrRead (Elem page generated_image_sel i) ''src'' (Some src),
                             FileWritten output_path image_data] @ post"
      and "filter is_file_written post = []" and "image_data \<noteq> []"
      and "full_res_src env src image_data"
    unfolding saved_full_res_def by blast
  then show ?thesis
    unfolding full_res_src_def by (fastforce split: option.splits)
qed

definition sample_payload :: string where
  "sample_payload = replicate 150000 CHR ''A''"

definition sample_src :: string where
  "sample_src = ''data:image/png;base64,'' @ sample_payload"

definition full_res_env :: "nat env" where
  \<comment> \<open>one generated image is on the page at once, with a full-resolution \<open>src\<close>\<close>
  "full_res_env =
     quiet_env
       \<lparr> query_selector_all := (\<lambda>p sel. ok 1),
         get_attribute := (\<lambda>e name. ok (Some sample_src)) \<rparr>"

lemma length_sample_payload: "length sample_payload = 150000"
  unfolding sample_payload_def by (rule length_replicate)

lemma sample_src_facts:
  "startswith sample_src ''data:image/''"
  "length sample_src = 150022"
  "split_comma sample_src = Some (''data:image/png;base64'', sample_payload)"
  "sample_payload \<noteq> []"
proof -
  show "startswith sample_src ''data:image/''" by (simp add: sample_src_def)
  show "length sample_src = 150022" by (simp add: sample_src_def length_sample_payload)
  show "split_comma sample_src = Some (''data:image/png;base64'', sample_payload)"
    by (simp add: sample_src_def split_comma_def)
  show "sample_payload \<noteq> []" using length_sample_payload by auto
qed

lemma full_res_run:
  "generate_grok_image full_res_env ''a red fox'' ''out/fox.png'' ''1:1'' initial_state =
     (Inr (success_result ''out/fox.png'' 23500),
      \<lparr> clock = 23500,
        events = [PageOpened 0,
                  Clicked (Elem 0 editor_sel 0),
                  Clicked (Elem 0 ''button[aria-label=\"Submit\"]'' 0),
                  AttrRead (Elem 0 generated_image_sel 0) ''src'' (Some sample_src),
                  FileWritten ''out/fox.png'' sample_payload,
                  PageClosed 0],
        next_page = 1, ext = 0 \<rparr>)"
  unfolding generate_grok_image_def upt_attempts
  by (simp add: grok_attempt_def grok_try_def grok_save_def poll_for_loaded_image_def
        poll_loaded_loop.simps poll_loaded_step_def or_empty_def sample_src_facts
        full_res_env_def quiet_env_def initial_state_def io_defs config_defs)

theorem grok_saves_full_resolution_image_witness:
  "fst (generate_grok_image full_res_env ''a red fox'' ''out/fox.png'' ''1:1'' initial_state) =
     Inr (success_result ''out/fox.png'' 23500) \<and>
   (\<exists>pre page i src image_data post.
      events (snd (generate_grok_image full_res_env ''a red fox'' ''out/fox.png'' ''1:1''
                     initial_state)) =
        pre @ [AttrRead (Elem page generated_image_sel i) ''src'' (Some src),
               FileWritten ''out/fox.png'' image_data] @ post \<and>
      filter is_file_written post = [] \<and>
      image_data \<noteq> [] \<and>
      startswith src ''data:image/'' \<and> 150000 < length src \<and>
      (\<exists>u encoded. split_comma src = Some (u, encoded) \<and>
                   b64decode full_res_env encoded = Inr image_data))"
proof -
  obtain s' where run:
    "generate_grok_image full_res_env ''a red fox'' ''out/fox.png'' ''1:1'' initial_state =
       (Inr (success_result ''out/fox.png'' 23500), s')"
    using full_res_run by blast
  have "map_of (success_result ''out/fox.png'' 23500) ''success'' = Some (PyBool True)"
    by (simp add: success_result_def)
  from grok_saves_full_resolution_image [OF run this] run show ?thesis by simp
qed

section \<open>The polling loops and the deadline\<close>











subsection \<open>A browser in which the result turns up at a given time\<close>








end
